theory Spec2Isabelle
  imports Main "HOL-Library.Word"
begin

section \<open>Data model (ollama.go, the Telegram part)\<close>

text \<open>
  Go's \<open>int64\<close> is a 64-bit word; its order is the signed one (\<open>sint\<close>).
  A \<open>time.Time\<close> instant and a \<open>time.Duration\<close> are integers without bound, in
  nanoseconds (\<open>time.Minute\<close> is 60000000000);
  \<open>t.After(u)\<close> is \<open>u < t\<close> and \<open>t.Add(-d)\<close> is \<open>t - d\<close>.
  A Go \<open>string\<close> is a byte sequence: \<open>len\<close> counts bytes, indexing reads a byte.
\<close>

type_synonym int64 = "64 word"
type_synonym gotime = int

record User =
  User_ID :: int64
  User_FirstName :: string
  User_Username :: string

record Chat =
  Chat_ID :: int64
  Chat_Type :: string
  Chat_FirstName :: string
  Chat_Username :: string

text \<open>The pointers \<open>From\<close> and \<open>Chat\<close> may be nil: \<open>None\<close>.\<close>

record Message =
  MessageID :: int64
  From :: "User option"
  Chat :: "Chat option"
  Text :: string
  Date :: int64

record Update =
  UpdateID :: int64
  Msg :: "Message option"

text \<open>
  The bot. \<open>AllowedUsers\<close> is \<open>map[int64]bool\<close>, \<open>rateLimiter\<close> is
  \<open>map[int64][]time.Time\<close>; the mutex is left out, every call being modelled as one
  atomic step (the whole body of \<open>checkRateLimit\<close> runs under the lock).
\<close>

record TelegramBot =
  Token :: string
  APIURL :: string
  LastUpdate :: int64
  AllowedUsers :: "int64 \<rightharpoonup> bool"
  rateLimiter :: "int64 \<rightharpoonup> gotime list"
  maxRequests :: int
  rateWindow :: int
  maxPromptLen :: int

datatype panic = NilDereference | SliceOutOfRange

text \<open>\<open>len(m)\<close> of a Go map, and \<open>m[k]\<close> on a key that may be missing (the zero value).\<close>

definition len_map :: "(int64 \<rightharpoonup> 'v) \<Rightarrow> nat" where
  "len_map m = card (dom m)"

definition lookup_bool :: "('k \<rightharpoonup> bool) \<Rightarrow> 'k \<Rightarrow> bool" where
  "lookup_bool m k = (case m k of None \<Rightarrow> False | Some b \<Rightarrow> b)"

definition lookup_times :: "('k \<rightharpoonup> gotime list) \<Rightarrow> 'k \<Rightarrow> gotime list" where
  "lookup_times m k = (case m k of None \<Rightarrow> [] | Some ts \<Rightarrow> ts)"

subsection \<open>NewTelegramBot\<close>

text \<open>
  What \<open>NewTelegramBot\<close> reads from the process environment, after the library
  parsers: for \<open>ALLOWED_USER_IDS\<close> the outcome of \<open>strconv.ParseInt\<close> on each
  comma-separated field (\<open>None\<close> where it fails; the empty list when the variable is
  unset or empty), for the three numbers the parsed value (\<open>None\<close> when the variable is
  unset or does not parse).
\<close>

record environ =
  ALLOWED_USER_IDS :: "int64 option list"
  RATE_LIMIT_MAX :: "int option"
  RATE_LIMIT_WINDOW :: "int option"
  MAX_PROMPT_LENGTH :: "int option"

fun parseAllowed :: "(int64 \<rightharpoonup> bool) \<Rightarrow> int64 option list \<Rightarrow> (int64 \<rightharpoonup> bool)" where
  "parseAllowed allowedUsers [] = allowedUsers"
| "parseAllowed allowedUsers (None # rest) = parseAllowed allowedUsers rest"
| "parseAllowed allowedUsers (Some i # rest) = parseAllowed (allowedUsers(i \<mapsto> True)) rest"

definition positiveOr :: "int \<Rightarrow> int option \<Rightarrow> int" where
  "positiveOr dflt v = (case v of None \<Rightarrow> dflt | Some n \<Rightarrow> if n > 0 then n else dflt)"

definition NewTelegramBot :: "string \<Rightarrow> environ \<Rightarrow> TelegramBot" where
  "NewTelegramBot token env =
     \<lparr> Token = token,
       APIURL = ''https://api.telegram.org/bot'' @ token,
       LastUpdate = 0,
       AllowedUsers = parseAllowed Map.empty (ALLOWED_USER_IDS env),
       rateLimiter = Map.empty,
       maxRequests = positiveOr 10 (RATE_LIMIT_MAX env),
       rateWindow = positiveOr 60000000000 (RATE_LIMIT_WINDOW env),
       maxPromptLen = positiveOr 4096 (MAX_PROMPT_LENGTH env) \<rparr>"

text \<open>The configured allow-list: the identities that parsed.\<close>

definition allowList :: "environ \<Rightarrow> int64 set" where
  "allowList env = Option.these (set (ALLOWED_USER_IDS env))"

section \<open>Access guard: isUserAllowed\<close>

text \<open>
  \<open>message.Chat.ID\<close> dereferences \<open>Chat\<close>; on a nil \<open>Chat\<close> Go panics
  (\<open>HandleMessage\<close> returns before the call in that case).
\<close>

definition isUserAllowed :: "TelegramBot \<Rightarrow> Message \<Rightarrow> panic + bool" where
  "isUserAllowed tbot message =
     (if len_map (AllowedUsers tbot) = 0 then Inr True
      else case From message of
        Some u \<Rightarrow> Inr (lookup_bool (AllowedUsers tbot) (User_ID u))
      | None \<Rightarrow>
          (case Chat message of
             Some c \<Rightarrow> Inr (lookup_bool (AllowedUsers tbot) (Chat_ID c))
           | None \<Rightarrow> Inl NilDereference))"

section \<open>Rate limiter: checkRateLimit\<close>

text \<open>
  The loop over \<open>bot.rateLimiter[userID]\<close> that appends to \<open>recent\<close> every
  timestamp after \<open>windowStart\<close>.
\<close>

fun filterRecent :: "gotime \<Rightarrow> gotime list \<Rightarrow> gotime list \<Rightarrow> gotime list" where
  "filterRecent windowStart recent [] = recent"
| "filterRecent windowStart recent (t # ts) =
     (if windowStart < t then filterRecent windowStart (recent @ [t]) ts
      else filterRecent windowStart recent ts)"

text \<open>\<open>time.Now()\<close> is the argument \<open>now\<close>; the result is the new bot and the answer.\<close>

definition checkRateLimit :: "gotime \<Rightarrow> TelegramBot \<Rightarrow> int64 \<Rightarrow> TelegramBot \<times> bool" where
  "checkRateLimit now tbot userID =
     (let windowStart = now - rateWindow tbot;
          recent = filterRecent windowStart [] (lookup_times (rateLimiter tbot) userID)
      in if int (length recent) \<ge> maxRequests tbot
         then (tbot\<lparr>rateLimiter := (rateLimiter tbot)(userID \<mapsto> recent)\<rparr>, False)
         else (tbot\<lparr>rateLimiter := (rateLimiter tbot)(userID \<mapsto> recent @ [now])\<rparr>, True))"

text \<open>A sequence of calls, each with its clock reading and identity; the answers in order.\<close>

fun checkRateLimits :: "TelegramBot \<Rightarrow> (gotime \<times> int64) list \<Rightarrow> TelegramBot \<times> bool list" where
  "checkRateLimits tbot [] = (tbot, [])"
| "checkRateLimits tbot ((now, userID) # calls) =
     (let (bot1, ok) = checkRateLimit now tbot userID;
          (bot2, oks) = checkRateLimits bot1 calls
      in (bot2, ok # oks))"

text \<open>
  The reference sliding window, from the specification's words: drop the retained
  timestamps that are \<open>\<le> windowStart\<close>; reject and keep the pruned list when the count
  is \<open>\<ge> N\<close>; otherwise append \<open>now\<close> and accept. Its state is the mapping alone.
\<close>

definition spec_checkAndRecord ::
  "int \<Rightarrow> int \<Rightarrow> gotime \<Rightarrow> (int64 \<rightharpoonup> gotime list) \<Rightarrow> int64 \<Rightarrow> (int64 \<rightharpoonup> gotime list) \<times> bool" where
  "spec_checkAndRecord N W now m ident =
     (let windowStart = now - W;
          kept = filter (\<lambda>t. \<not> t \<le> windowStart) (case m ident of None \<Rightarrow> [] | Some ts \<Rightarrow> ts)
      in if int (length kept) \<ge> N then (m(ident \<mapsto> kept), False)
         else (m(ident \<mapsto> kept @ [now]), True))"

fun spec_run ::
  "int \<Rightarrow> int \<Rightarrow> (int64 \<rightharpoonup> gotime list) \<Rightarrow> (gotime \<times> int64) list \<Rightarrow> (int64 \<rightharpoonup> gotime list) \<times> bool list" where
  "spec_run N W m [] = (m, [])"
| "spec_run N W m ((now, ident) # calls) =
     (let (m1, ok) = spec_checkAndRecord N W now m ident;
          (m2, oks) = spec_run N W m1 calls
      in (m2, ok # oks))"

section \<open>Segmenter: SplitMessage (utils.go)\<close>

text \<open>
  The backward searches
  \<^verbatim>\<open>for i := maxLen; i > 0 && i > maxLen-k; i-- { if current[i-1] == c { splitPos = i; break } }\<close>
  with \<open>splitPos\<close> initially \<open>maxLen\<close>: the result is the new \<open>splitPos\<close>. The loop
  runs only while \<open>len(current) > maxLen\<close>, so \<open>i - 1\<close> is a valid index.
\<close>

function searchBack :: "char \<Rightarrow> string \<Rightarrow> int \<Rightarrow> int \<Rightarrow> int \<Rightarrow> int" where
  "searchBack c current maxLen k i =
     (if i > 0 \<and> i > maxLen - k
      then (if current ! nat (i - 1) = c then i else searchBack c current maxLen k (i - 1))
      else maxLen)"
  by pat_completeness auto
termination
  by (relation "measure (\<lambda>(c, current, maxLen, k, i). nat i)") auto

text \<open>Skipping the leading spaces and newlines of the remainder.\<close>

fun skipLeading :: "string \<Rightarrow> string" where
  "skipLeading [] = []"
| "skipLeading (c # cs) = (if c = CHR '' '' \<or> c = CHR 0x0A then skipLeading cs else c # cs)"

text \<open>
  What a call does: it returns a value, or panics; a call that never returns is
  \<open>None\<close> of the enclosing option.
\<close>

datatype 'a outcome = Returns 'a | Panics panic

text \<open>
  The splitting loop of the current revision (utils.go, lines 113 to 150), with the final
  append. The slice expression \<open>current[:splitPos]\<close> panics outside
  \<open>0 \<le> splitPos \<le> len(current)\<close>.
\<close>

partial_function (option) splitLoop :: "int \<Rightarrow> string \<Rightarrow> string list \<Rightarrow> string list outcome option" where
  "splitLoop maxLen current parts =
     (if int (length current) > maxLen then
        (let splitPos0 = searchBack (CHR 0x0A) current maxLen 100 maxLen;
             splitPos1 = (if splitPos0 = maxLen
                          then searchBack (CHR '' '') current maxLen 50 maxLen else splitPos0);
             splitPos = (if splitPos1 = maxLen \<and> int (length current) > maxLen
                         then maxLen else splitPos1)
         in if splitPos < 0 \<or> splitPos > int (length current) then Some (Panics SliceOutOfRange)
            else splitLoop maxLen (skipLeading (drop (nat splitPos) current))
                   (parts @ [take (nat splitPos) current]))
      else Some (Returns (if length current > 0 then parts @ [current] else parts)))"

definition SplitMessage :: "string \<Rightarrow> int \<Rightarrow> string list outcome option" where
  "SplitMessage text maxLen =
     (if int (length text) \<le> maxLen then Some (Returns [text])
      else splitLoop (if maxLen \<le> 0 then 4000 else maxLen) text [])"

text \<open>
  The earlier revision (utils.go, lines 5 to 42): no replacement of a non-positive
  \<open>maxLen\<close>, no skipping of whitespace.
\<close>

partial_function (option) splitLoop_rev1 :: "int \<Rightarrow> string \<Rightarrow> string list \<Rightarrow> string list outcome option" where
  "splitLoop_rev1 maxLen current parts =
     (if int (length current) > maxLen then
        (let splitPos0 = searchBack (CHR 0x0A) current maxLen 100 maxLen;
             splitPos = (if splitPos0 = maxLen
                         then searchBack (CHR '' '') current maxLen 50 maxLen else splitPos0)
         in if splitPos < 0 \<or> splitPos > int (length current) then Some (Panics SliceOutOfRange)
            else splitLoop_rev1 maxLen (drop (nat splitPos) current)
                   (parts @ [take (nat splitPos) current]))
      else Some (Returns (if length current > 0 then parts @ [current] else parts)))"

definition SplitMessage_rev1 :: "string \<Rightarrow> int \<Rightarrow> string list outcome option" where
  "SplitMessage_rev1 text maxLen =
     (if int (length text) \<le> maxLen then Some (Returns [text])
      else splitLoop_rev1 maxLen text [])"

text \<open>
  The contract's reconstruction, from the specification's words. \<open>whitespace w\<close>: a
  (possibly empty) run of spaces and newlines. \<open>weave parts ws\<close>: each chunk followed by
  its run. \<open>rebuilds_between\<close>: the text is the chunks with a run between consecutive
  chunks only. \<open>rebuilds\<close>: a run may also follow the last chunk, but only where that
  chunk was cut off a remainder longer than \<open>maxLen\<close> which held nothing but the run
  after it.
\<close>

definition whitespace :: "string \<Rightarrow> bool" where
  "whitespace w = list_all (\<lambda>c. c = CHR '' '' \<or> c = CHR 0x0A) w"

fun weave :: "string list \<Rightarrow> string list \<Rightarrow> string" where
  "weave (p # ps) (w # ws) = p @ w @ weave ps ws"
| "weave ps ws = []"

definition rebuilds_between :: "string \<Rightarrow> string list \<Rightarrow> bool" where
  "rebuilds_between text parts =
     (\<exists>ws. length ws + 1 = length parts \<and> list_all whitespace ws \<and> text = weave parts (ws @ [[]]))"

definition rebuilds :: "int \<Rightarrow> string \<Rightarrow> string list \<Rightarrow> bool" where
  "rebuilds maxLen text parts =
     (\<exists>ws. parts \<noteq> [] \<and> length ws = length parts \<and> list_all whitespace ws \<and>
           text = weave parts ws \<and>
           (last ws \<noteq> [] \<longrightarrow>
              int (length (last parts)) \<le> maxLen \<and>
              maxLen < int (length (last parts @ last ws))))"

section \<open>Dispatcher: HandleMessage, handleCommand, handleTextMessage (ollama.go)\<close>

text \<open>
  The observable effects, in order: a call of \<open>SendMessage\<close> (chat, text), a line
  written with \<open>log.Printf\<close>, a \<open>time.Sleep\<close> (nanoseconds) and a request of
  \<open>GetUpdates\<close> (its offset). A log line is kept as its call site and arguments.
  \<open>strings.ReplaceAll\<close> is Go's library: \<open>Sanitized token e\<close> stands for
  \<open>sanitizeError\<close> of \<open>e\<close>, that is \<open>ReplaceAll(e, token, "[REDACTED]")\<close>.
\<close>

datatype errortext = Raw string | Sanitized string string

datatype logline =
    LogUnauthorized int64
  | LogOllamaError int64 errortext
  | LogSendFailed errortext
  | LogErrorReplyFailed errortext
  | LogPartFailed errortext
  | LogGetUpdatesFailed errortext

datatype effect = Send int64 string | Log logline | Sleep int | Fetch int64

text \<open>
  The collaborators while one message is handled: the clock read by \<open>time.Now()\<close>,
  the backend (\<open>Ollama.SendPrompt\<close>: \<open>Inl\<close> its error text, \<open>Inr\<close> its response) and
  the outcome of a send (\<open>Some\<close> the error text when \<open>SendMessage\<close> fails).
\<close>

record collab =
  clock :: gotime
  SendPrompt :: "string \<Rightarrow> string + string"
  sendResult :: "int64 \<Rightarrow> string \<Rightarrow> string option"

definition sanitizeError :: "TelegramBot \<Rightarrow> string \<Rightarrow> errortext" where
  "sanitizeError tbot err = Sanitized (Token tbot) err"

definition SendMessage :: "collab \<Rightarrow> effect list \<Rightarrow> int64 \<Rightarrow> string \<Rightarrow> effect list \<times> string option" where
  "SendMessage w tr chatID text = (tr @ [Send chatID text], sendResult w chatID text)"

text \<open>\<open>%d\<close> of \<open>fmt.Sprintf\<close> on an \<open>int\<close>: decimal digits, with a minus sign.\<close>

fun digits :: "nat \<Rightarrow> string" where
  "digits n =
     (if n < 10 then [''0123456789'' ! n] else digits (n div 10) @ [''0123456789'' ! (n mod 10)])"

definition fmt_d :: "int \<Rightarrow> string" where
  "fmt_d n = (if n < 0 then CHR ''-'' # digits (nat (- n)) else digits (nat n))"

text \<open>The reply when the rate limiter rejects (ollama.go, line 446; 100 bytes of UTF-8).\<close>

definition msgRateLimited :: string where
  "msgRateLimited = [
      CHR 0xD0, CHR 0xA1, CHR 0xD0, CHR 0xBB, CHR 0xD0, CHR 0xB8, CHR 0xD1, CHR 0x88,
      CHR 0xD0, CHR 0xBA, CHR 0xD0, CHR 0xBE, CHR 0xD0, CHR 0xBC, CHR 0x20, CHR 0xD0,
      CHR 0xBC, CHR 0xD0, CHR 0xBD, CHR 0xD0, CHR 0xBE, CHR 0xD0, CHR 0xB3, CHR 0xD0,
      CHR 0xBE, CHR 0x20, CHR 0xD0, CHR 0xB7, CHR 0xD0, CHR 0xB0, CHR 0xD0, CHR 0xBF,
      CHR 0xD1, CHR 0x80, CHR 0xD0, CHR 0xBE, CHR 0xD1, CHR 0x81, CHR 0xD0, CHR 0xBE,
      CHR 0xD0, CHR 0xB2, CHR 0x2E, CHR 0x20, CHR 0xD0, CHR 0x9F, CHR 0xD0, CHR 0xBE,
      CHR 0xD0, CHR 0xB6, CHR 0xD0, CHR 0xB0, CHR 0xD0, CHR 0xBB, CHR 0xD1, CHR 0x83,
      CHR 0xD0, CHR 0xB9, CHR 0xD1, CHR 0x81, CHR 0xD1, CHR 0x82, CHR 0xD0, CHR 0xB0,
      CHR 0x2C, CHR 0x20, CHR 0xD0, CHR 0xBF, CHR 0xD0, CHR 0xBE, CHR 0xD0, CHR 0xB4,
      CHR 0xD0, CHR 0xBE, CHR 0xD0, CHR 0xB6, CHR 0xD0, CHR 0xB4, CHR 0xD0, CHR 0xB8,
      CHR 0xD1, CHR 0x82, CHR 0xD0, CHR 0xB5, CHR 0x20, CHR 0xD0, CHR 0xBD, CHR 0xD0,
      CHR 0xB5, CHR 0xD0, CHR 0xBC, CHR 0xD0, CHR 0xBD, CHR 0xD0, CHR 0xBE, CHR 0xD0,
      CHR 0xB3, CHR 0xD0, CHR 0xBE, CHR 0x2E]"

text \<open>The format string of the too-long reply, up to its \<open>%d\<close> (87 bytes of UTF-8).\<close>

definition msgTooLongPrefix :: string where
  "msgTooLongPrefix = [
      CHR 0xD0, CHR 0xA1, CHR 0xD0, CHR 0xBE, CHR 0xD0, CHR 0xBE, CHR 0xD0, CHR 0xB1,
      CHR 0xD1, CHR 0x89, CHR 0xD0, CHR 0xB5, CHR 0xD0, CHR 0xBD, CHR 0xD0, CHR 0xB8,
      CHR 0xD0, CHR 0xB5, CHR 0x20, CHR 0xD1, CHR 0x81, CHR 0xD0, CHR 0xBB, CHR 0xD0,
      CHR 0xB8, CHR 0xD1, CHR 0x88, CHR 0xD0, CHR 0xBA, CHR 0xD0, CHR 0xBE, CHR 0xD0,
      CHR 0xBC, CHR 0x20, CHR 0xD0, CHR 0xB4, CHR 0xD0, CHR 0xBB, CHR 0xD0, CHR 0xB8,
      CHR 0xD0, CHR 0xBD, CHR 0xD0, CHR 0xBD, CHR 0xD0, CHR 0xBE, CHR 0xD0, CHR 0xB5,
      CHR 0x2E, CHR 0x20, CHR 0xD0, CHR 0x9C, CHR 0xD0, CHR 0xB0, CHR 0xD0, CHR 0xBA,
      CHR 0xD1, CHR 0x81, CHR 0xD0, CHR 0xB8, CHR 0xD0, CHR 0xBC, CHR 0xD0, CHR 0xB0,
      CHR 0xD0, CHR 0xBB, CHR 0xD1, CHR 0x8C, CHR 0xD0, CHR 0xBD, CHR 0xD0, CHR 0xB0,
      CHR 0xD1, CHR 0x8F, CHR 0x20, CHR 0xD0, CHR 0xB4, CHR 0xD0, CHR 0xBB, CHR 0xD0,
      CHR 0xB8, CHR 0xD0, CHR 0xBD, CHR 0xD0, CHR 0xB0, CHR 0x3A, CHR 0x20]"

text \<open>The format string of the too-long reply, after its \<open>%d\<close> (18 bytes of UTF-8).\<close>

definition msgTooLongSuffix :: string where
  "msgTooLongSuffix = [
      CHR 0x20, CHR 0xD1, CHR 0x81, CHR 0xD0, CHR 0xB8, CHR 0xD0, CHR 0xBC, CHR 0xD0,
      CHR 0xB2, CHR 0xD0, CHR 0xBE, CHR 0xD0, CHR 0xBB, CHR 0xD0, CHR 0xBE, CHR 0xD0,
      CHR 0xB2, CHR 0x2E]"

text \<open>The acknowledgment sent before the backend call (38 bytes of UTF-8).\<close>

definition msgProcessing :: string where
  "msgProcessing = [
      CHR 0xD0, CHR 0x9E, CHR 0xD0, CHR 0xB1, CHR 0xD1, CHR 0x80, CHR 0xD0, CHR 0xB0,
      CHR 0xD0, CHR 0xB1, CHR 0xD0, CHR 0xB0, CHR 0xD1, CHR 0x82, CHR 0xD1, CHR 0x8B,
      CHR 0xD0, CHR 0xB2, CHR 0xD0, CHR 0xB0, CHR 0xD1, CHR 0x8E, CHR 0x20, CHR 0xD0,
      CHR 0xB7, CHR 0xD0, CHR 0xB0, CHR 0xD0, CHR 0xBF, CHR 0xD1, CHR 0x80, CHR 0xD0,
      CHR 0xBE, CHR 0xD1, CHR 0x81, CHR 0x2E, CHR 0x2E, CHR 0x2E]"

text \<open>The reply on a backend error (ollama.go, line 464; 106 bytes of UTF-8).\<close>

definition msgGenericFailure :: string where
  "msgGenericFailure = [
      CHR 0xD0, CHR 0x9F, CHR 0xD1, CHR 0x80, CHR 0xD0, CHR 0xBE, CHR 0xD0, CHR 0xB8,
      CHR 0xD0, CHR 0xB7, CHR 0xD0, CHR 0xBE, CHR 0xD1, CHR 0x88, CHR 0xD0, CHR 0xBB,
      CHR 0xD0, CHR 0xB0, CHR 0x20, CHR 0xD0, CHR 0xBE, CHR 0xD1, CHR 0x88, CHR 0xD0,
      CHR 0xB8, CHR 0xD0, CHR 0xB1, CHR 0xD0, CHR 0xBA, CHR 0xD0, CHR 0xB0, CHR 0x20,
      CHR 0xD0, CHR 0xBF, CHR 0xD1, CHR 0x80, CHR 0xD0, CHR 0xB8, CHR 0x20, CHR 0xD0,
      CHR 0xBE, CHR 0xD0, CHR 0xB1, CHR 0xD1, CHR 0x80, CHR 0xD0, CHR 0xB0, CHR 0xD0,
      CHR 0xB1, CHR 0xD0, CHR 0xBE, CHR 0xD1, CHR 0x82, CHR 0xD0, CHR 0xBA, CHR 0xD0,
      CHR 0xB5, CHR 0x20, CHR 0xD0, CHR 0xB7, CHR 0xD0, CHR 0xB0, CHR 0xD0, CHR 0xBF,
      CHR 0xD1, CHR 0x80, CHR 0xD0, CHR 0xBE, CHR 0xD1, CHR 0x81, CHR 0xD0, CHR 0xB0,
      CHR 0x2E, CHR 0x20, CHR 0xD0, CHR 0x9F, CHR 0xD0, CHR 0xBE, CHR 0xD0, CHR 0xBF,
      CHR 0xD1, CHR 0x80, CHR 0xD0, CHR 0xBE, CHR 0xD0, CHR 0xB1, CHR 0xD1, CHR 0x83,
      CHR 0xD0, CHR 0xB9, CHR 0xD1, CHR 0x82, CHR 0xD0, CHR 0xB5, CHR 0x20, CHR 0xD0,
      CHR 0xBF, CHR 0xD0, CHR 0xBE, CHR 0xD0, CHR 0xB7, CHR 0xD0, CHR 0xB6, CHR 0xD0,
      CHR 0xB5, CHR 0x2E]"

text \<open>Appended to the first part when there are several (44 bytes of UTF-8).\<close>

definition continuationMarker :: string where
  "continuationMarker = [
      CHR 0x0A, CHR 0x0A, CHR 0x5B, CHR 0xD0, CHR 0x9F, CHR 0xD1, CHR 0x80, CHR 0xD0,
      CHR 0xBE, CHR 0xD0, CHR 0xB4, CHR 0xD0, CHR 0xBE, CHR 0xD0, CHR 0xBB, CHR 0xD0,
      CHR 0xB6, CHR 0xD0, CHR 0xB5, CHR 0xD0, CHR 0xBD, CHR 0xD0, CHR 0xB8, CHR 0xD0,
      CHR 0xB5, CHR 0x20, CHR 0xD1, CHR 0x81, CHR 0xD0, CHR 0xBB, CHR 0xD0, CHR 0xB5,
      CHR 0xD0, CHR 0xB4, CHR 0xD1, CHR 0x83, CHR 0xD0, CHR 0xB5, CHR 0xD1, CHR 0x82,
      CHR 0x2E, CHR 0x2E, CHR 0x2E, CHR 0x5D]"

text \<open>The reply to \<open>/start\<close> (263 bytes of UTF-8).\<close>

definition msgStart :: string where
  "msgStart = [
      CHR 0xD0, CHR 0x9F, CHR 0xD1, CHR 0x80, CHR 0xD0, CHR 0xB8, CHR 0xD0, CHR 0xB2,
      CHR 0xD0, CHR 0xB5, CHR 0xD1, CHR 0x82, CHR 0x21, CHR 0x20, CHR 0xD0, CHR 0xAF,
      CHR 0x20, CHR 0xD0, CHR 0xB1, CHR 0xD0, CHR 0xBE, CHR 0xD1, CHR 0x82, CHR 0x20,
      CHR 0xD0, CHR 0xB4, CHR 0xD0, CHR 0xBB, CHR 0xD1, CHR 0x8F, CHR 0x20, CHR 0xD1,
      CHR 0x80, CHR 0xD0, CHR 0xB0, CHR 0xD0, CHR 0xB1, CHR 0xD0, CHR 0xBE, CHR 0xD1,
      CHR 0x82, CHR 0xD1, CHR 0x8B, CHR 0x20, CHR 0xD1, CHR 0x81, CHR 0x20, CHR 0x4F,
      CHR 0x6C, CHR 0x6C, CHR 0x61, CHR 0x6D, CHR 0x61, CHR 0x20, CHR 0x4C, CHR 0x4C,
      CHR 0x4D, CHR 0x2E, CHR 0x0A, CHR 0x0A, CHR 0xD0, CHR 0x9F, CHR 0xD1, CHR 0x80,
      CHR 0xD0, CHR 0xBE, CHR 0xD1, CHR 0x81, CHR 0xD1, CHR 0x82, CHR 0xD0, CHR 0xBE,
      CHR 0x20, CHR 0xD0, CHR 0xBE, CHR 0xD1, CHR 0x82, CHR 0xD0, CHR 0xBF, CHR 0xD1,
      CHR 0x80, CHR 0xD0, CHR 0xB0, CHR 0xD0, CHR 0xB2, CHR 0xD1, CHR 0x8C, CHR 0x20,
      CHR 0xD0, CHR 0xBC, CHR 0xD0, CHR 0xBD, CHR 0xD0, CHR 0xB5, CHR 0x20, CHR 0xD1,
      CHR 0x81, CHR 0xD0, CHR 0xBE, CHR 0xD0, CHR 0xBE, CHR 0xD0, CHR 0xB1, CHR 0xD1,
      CHR 0x89, CHR 0xD0, CHR 0xB5, CHR 0xD0, CHR 0xBD, CHR 0xD0, CHR 0xB8, CHR 0xD0,
      CHR 0xB5, CHR 0x2C, CHR 0x20, CHR 0xD0, CHR 0xB8, CHR 0x20, CHR 0xD1, CHR 0x8F,
      CHR 0x20, CHR 0xD0, CHR 0xBF, CHR 0xD0, CHR 0xB5, CHR 0xD1, CHR 0x80, CHR 0xD0,
      CHR 0xB5, CHR 0xD0, CHR 0xB4, CHR 0xD0, CHR 0xB0, CHR 0xD0, CHR 0xBC, CHR 0x20,
      CHR 0xD0, CHR 0xB5, CHR 0xD0, CHR 0xB3, CHR 0xD0, CHR 0xBE, CHR 0x20, CHR 0xD0,
      CHR 0xBC, CHR 0xD0, CHR 0xBE, CHR 0xD0, CHR 0xB4, CHR 0xD0, CHR 0xB5, CHR 0xD0,
      CHR 0xBB, CHR 0xD0, CHR 0xB8, CHR 0x20, CHR 0xD0, CHR 0xB4, CHR 0xD0, CHR 0xBB,
      CHR 0xD1, CHR 0x8F, CHR 0x20, CHR 0xD0, CHR 0xB3, CHR 0xD0, CHR 0xB5, CHR 0xD0,
      CHR 0xBD, CHR 0xD0, CHR 0xB5, CHR 0xD1, CHR 0x80, CHR 0xD0, CHR 0xB0, CHR 0xD1,
      CHR 0x86, CHR 0xD0, CHR 0xB8, CHR 0xD0, CHR 0xB8, CHR 0x20, CHR 0xD0, CHR 0xBE,
      CHR 0xD1, CHR 0x82, CHR 0xD0, CHR 0xB2, CHR 0xD0, CHR 0xB5, CHR 0xD1, CHR 0x82,
      CHR 0xD0, CHR 0xB0, CHR 0x2E, CHR 0x0A, CHR 0x0A, CHR 0xD0, CHR 0x98, CHR 0xD1,
      CHR 0x81, CHR 0xD0, CHR 0xBF, CHR 0xD0, CHR 0xBE, CHR 0xD0, CHR 0xBB, CHR 0xD1,
      CHR 0x8C, CHR 0xD0, CHR 0xB7, CHR 0xD1, CHR 0x83, CHR 0xD0, CHR 0xB9, CHR 0x20,
      CHR 0x2F, CHR 0x68, CHR 0x65, CHR 0x6C, CHR 0x70, CHR 0x20, CHR 0xD0, CHR 0xB4,
      CHR 0xD0, CHR 0xBB, CHR 0xD1, CHR 0x8F, CHR 0x20, CHR 0xD0, CHR 0xBF, CHR 0xD0,
      CHR 0xBE, CHR 0xD0, CHR 0xBB, CHR 0xD1, CHR 0x83, CHR 0xD1, CHR 0x87, CHR 0xD0,
      CHR 0xB5, CHR 0xD0, CHR 0xBD, CHR 0xD0, CHR 0xB8, CHR 0xD1, CHR 0x8F, CHR 0x20,
      CHR 0xD1, CHR 0x81, CHR 0xD0, CHR 0xBF, CHR 0xD1, CHR 0x80, CHR 0xD0, CHR 0xB0,
      CHR 0xD0, CHR 0xB2, CHR 0xD0, CHR 0xBA, CHR 0xD0, CHR 0xB8, CHR 0x2E]"

text \<open>The reply to \<open>/help\<close> (248 bytes of UTF-8).\<close>

definition msgHelp :: string where
  "msgHelp = [
      CHR 0xD0, CHR 0x94, CHR 0xD0, CHR 0xBE, CHR 0xD1, CHR 0x81, CHR 0xD1, CHR 0x82,
      CHR 0xD1, CHR 0x83, CHR 0xD0, CHR 0xBF, CHR 0xD0, CHR 0xBD, CHR 0xD1, CHR 0x8B,
      CHR 0xD0, CHR 0xB5, CHR 0x20, CHR 0xD0, CHR 0xBA, CHR 0xD0, CHR 0xBE, CHR 0xD0,
      CHR 0xBC, CHR 0xD0, CHR 0xB0, CHR 0xD0, CHR 0xBD, CHR 0xD0, CHR 0xB4, CHR 0xD1,
      CHR 0x8B, CHR 0x3A, CHR 0x0A, CHR 0x0A, CHR 0x2F, CHR 0x73, CHR 0x74, CHR 0x61,
      CHR 0x72, CHR 0x74, CHR 0x20, CHR 0x2D, CHR 0x20, CHR 0xD0, CHR 0xBF, CHR 0xD1,
      CHR 0x80, CHR 0xD0, CHR 0xB8, CHR 0xD0, CHR 0xB2, CHR 0xD0, CHR 0xB5, CHR 0xD1,
      CHR 0x82, CHR 0xD1, CHR 0x81, CHR 0xD1, CHR 0x82, CHR 0xD0, CHR 0xB2, CHR 0xD0,
      CHR 0xB5, CHR 0xD0, CHR 0xBD, CHR 0xD0, CHR 0xBD, CHR 0xD0, CHR 0xBE, CHR 0xD0,
      CHR 0xB5, CHR 0x20, CHR 0xD1, CHR 0x81, CHR 0xD0, CHR 0xBE, CHR 0xD0, CHR 0xBE,
      CHR 0xD0, CHR 0xB1, CHR 0xD1, CHR 0x89, CHR 0xD0, CHR 0xB5, CHR 0xD0, CHR 0xBD,
      CHR 0xD0, CHR 0xB8, CHR 0xD0, CHR 0xB5, CHR 0x0A, CHR 0x2F, CHR 0x68, CHR 0x65,
      CHR 0x6C, CHR 0x70, CHR 0x20, CHR 0x2D, CHR 0x20, CHR 0xD1, CHR 0x8D, CHR 0xD1,
      CHR 0x82, CHR 0xD0, CHR 0xB0, CHR 0x20, CHR 0xD1, CHR 0x81, CHR 0xD0, CHR 0xBF,
      CHR 0xD1, CHR 0x80, CHR 0xD0, CHR 0xB0, CHR 0xD0, CHR 0xB2, CHR 0xD0, CHR 0xBA,
      CHR 0xD0, CHR 0xB0, CHR 0x0A, CHR 0x0A, CHR 0xD0, CHR 0x9B, CHR 0xD1, CHR 0x8E,
      CHR 0xD0, CHR 0xB1, CHR 0xD0, CHR 0xBE, CHR 0xD0, CHR 0xB5, CHR 0x20, CHR 0xD0,
      CHR 0xB4, CHR 0xD1, CHR 0x80, CHR 0xD1, CHR 0x83, CHR 0xD0, CHR 0xB3, CHR 0xD0,
      CHR 0xBE, CHR 0xD0, CHR 0xB5, CHR 0x20, CHR 0xD1, CHR 0x81, CHR 0xD0, CHR 0xBE,
      CHR 0xD0, CHR 0xBE, CHR 0xD0, CHR 0xB1, CHR 0xD1, CHR 0x89, CHR 0xD0, CHR 0xB5,
      CHR 0xD0, CHR 0xBD, CHR 0xD0, CHR 0xB8, CHR 0xD0, CHR 0xB5, CHR 0x20, CHR 0xD0,
      CHR 0xB1, CHR 0xD1, CHR 0x83, CHR 0xD0, CHR 0xB4, CHR 0xD0, CHR 0xB5, CHR 0xD1,
      CHR 0x82, CHR 0x20, CHR 0xD0, CHR 0xBE, CHR 0xD1, CHR 0x82, CHR 0xD0, CHR 0xBF,
      CHR 0xD1, CHR 0x80, CHR 0xD0, CHR 0xB0, CHR 0xD0, CHR 0xB2, CHR 0xD0, CHR 0xBB,
      CHR 0xD0, CHR 0xB5, CHR 0xD0, CHR 0xBD, CHR 0xD0, CHR 0xBE, CHR 0x20, CHR 0xD0,
      CHR 0xB2, CHR 0x20, CHR 0x4F, CHR 0x6C, CHR 0x6C, CHR 0x61, CHR 0x6D, CHR 0x61,
      CHR 0x20, CHR 0xD0, CHR 0xB4, CHR 0xD0, CHR 0xBB, CHR 0xD1, CHR 0x8F, CHR 0x20,
      CHR 0xD0, CHR 0xB3, CHR 0xD0, CHR 0xB5, CHR 0xD0, CHR 0xBD, CHR 0xD0, CHR 0xB5,
      CHR 0xD1, CHR 0x80, CHR 0xD0, CHR 0xB0, CHR 0xD1, CHR 0x86, CHR 0xD0, CHR 0xB8,
      CHR 0xD0, CHR 0xB8, CHR 0x20, CHR 0xD0, CHR 0xBE, CHR 0xD1, CHR 0x82, CHR 0xD0,
      CHR 0xB2, CHR 0xD0, CHR 0xB5, CHR 0xD1, CHR 0x82, CHR 0xD0, CHR 0xB0, CHR 0x2E]"

text \<open>
  The format string of the earlier revision's error reply, up to its \<open>%s\<close>
  (ollama.go, line 706; 70 bytes of UTF-8).
\<close>

definition msgOllamaErrorPrefix_rev1 :: string where
  "msgOllamaErrorPrefix_rev1 = [
      CHR 0xD0, CHR 0x9F, CHR 0xD1, CHR 0x80, CHR 0xD0, CHR 0xBE, CHR 0xD0, CHR 0xB8,
      CHR 0xD0, CHR 0xB7, CHR 0xD0, CHR 0xBE, CHR 0xD1, CHR 0x88, CHR 0xD0, CHR 0xBB,
      CHR 0xD0, CHR 0xB0, CHR 0x20, CHR 0xD0, CHR 0xBE, CHR 0xD1, CHR 0x88, CHR 0xD0,
      CHR 0xB8, CHR 0xD0, CHR 0xB1, CHR 0xD0, CHR 0xBA, CHR 0xD0, CHR 0xB0, CHR 0x20,
      CHR 0xD0, CHR 0xBF, CHR 0xD1, CHR 0x80, CHR 0xD0, CHR 0xB8, CHR 0x20, CHR 0xD0,
      CHR 0xBE, CHR 0xD0, CHR 0xB1, CHR 0xD1, CHR 0x80, CHR 0xD0, CHR 0xB0, CHR 0xD1,
      CHR 0x89, CHR 0xD0, CHR 0xB5, CHR 0xD0, CHR 0xBD, CHR 0xD0, CHR 0xB8, CHR 0xD0,
      CHR 0xB8, CHR 0x20, CHR 0xD0, CHR 0xBA, CHR 0x20, CHR 0x4F, CHR 0x6C, CHR 0x6C,
      CHR 0x61, CHR 0x6D, CHR 0x61, CHR 0x3A, CHR 0x0A, CHR 0x0A]"

definition msgTooLong :: "int \<Rightarrow> string" where
  "msgTooLong n = msgTooLongPrefix @ fmt_d n @ msgTooLongSuffix"

text \<open>
  The loop over the parts: \<open>n\<close> is \<open>len(parts)\<close>, \<open>i\<close> the index of the part at the
  head of the list.
\<close>

fun sendParts :: "collab \<Rightarrow> TelegramBot \<Rightarrow> int64 \<Rightarrow> nat \<Rightarrow> nat \<Rightarrow> string list \<Rightarrow> effect list \<Rightarrow> effect list" where
  "sendParts w tbot chatID n i [] tr = tr"
| "sendParts w tbot chatID n i (part # rest) tr =
     (let part1 = (if i = 0 \<and> n > 1 then part @ continuationMarker else part);
          (tr1, err) = SendMessage w tr chatID part1;
          tr2 = (case err of None \<Rightarrow> tr1 | Some e \<Rightarrow> tr1 @ [Log (LogPartFailed (sanitizeError tbot e))]);
          tr3 = (if int i < int n - 1 then tr2 @ [Sleep 100000000] else tr2)
      in sendParts w tbot chatID n (i + 1) rest tr3)"

text \<open>The current revision (ollama.go, lines 443 to 487).\<close>

definition handleTextMessage ::
  "collab \<Rightarrow> TelegramBot \<times> effect list \<Rightarrow> int64 \<Rightarrow> string \<Rightarrow> (TelegramBot \<times> effect list) outcome option" where
  "handleTextMessage w st chatID text =
     (let (tbot, tr) = st;
          (bot1, ok) = checkRateLimit (clock w) tbot chatID
      in if \<not> ok then Some (Returns (bot1, fst (SendMessage w tr chatID msgRateLimited)))
         else if int (length text) > maxPromptLen bot1
         then Some (Returns (bot1, fst (SendMessage w tr chatID (msgTooLong (maxPromptLen bot1)))))
         else
           (let tr1 = fst (SendMessage w tr chatID msgProcessing)
            in case SendPrompt w text of
                 Inl err \<Rightarrow>
                   (let tr2 = tr1 @ [Log (LogOllamaError chatID (Raw err))];
                        (tr3, sendErr) = SendMessage w tr2 chatID msgGenericFailure
                    in Some (Returns (bot1,
                         (case sendErr of None \<Rightarrow> tr3
                          | Some e \<Rightarrow> tr3 @ [Log (LogErrorReplyFailed (sanitizeError bot1 e))]))))
               | Inr response \<Rightarrow>
                   (case SplitMessage response 4000 of
                      None \<Rightarrow> None
                    | Some (Panics p) \<Rightarrow> Some (Panics p)
                    | Some (Returns parts) \<Rightarrow>
                        Some (Returns (bot1, sendParts w bot1 chatID (length parts) 0 parts tr1)))))"

text \<open>
  The earlier revision (ollama.go, lines 699 to 730): no rate limit, no length check, and
  the backend's error text is formatted into the reply. The revision of
  \<open>SplitMessage\<close> it is built with is the parameter \<open>split\<close>.
\<close>

fun sendParts_rev1 :: "collab \<Rightarrow> int64 \<Rightarrow> nat \<Rightarrow> nat \<Rightarrow> string list \<Rightarrow> effect list \<Rightarrow> effect list" where
  "sendParts_rev1 w chatID n i [] tr = tr"
| "sendParts_rev1 w chatID n i (part # rest) tr =
     (let part1 = (if i = 0 \<and> n > 1 then part @ continuationMarker else part);
          (tr1, err) = SendMessage w tr chatID part1;
          tr2 = (case err of None \<Rightarrow> tr1 | Some e \<Rightarrow> tr1 @ [Log (LogPartFailed (Raw e))]);
          tr3 = (if int i < int n - 1 then tr2 @ [Sleep 100000000] else tr2)
      in sendParts_rev1 w chatID n (i + 1) rest tr3)"

definition handleTextMessage_rev1 ::
  "(string \<Rightarrow> int \<Rightarrow> string list outcome option) \<Rightarrow> collab \<Rightarrow> effect list \<Rightarrow> int64 \<Rightarrow> string
     \<Rightarrow> effect list outcome option" where
  "handleTextMessage_rev1 split w tr chatID text =
     (let tr1 = fst (SendMessage w tr chatID msgProcessing)
      in case SendPrompt w text of
           Inl err \<Rightarrow>
             (let errorMsg = msgOllamaErrorPrefix_rev1 @ err;
                  (tr2, sendErr) = SendMessage w tr1 chatID errorMsg
              in Some (Returns
                   (case sendErr of None \<Rightarrow> tr2
                    | Some e \<Rightarrow> tr2 @ [Log (LogErrorReplyFailed (Raw e))])))
         | Inr response \<Rightarrow>
             (case split response 4000 of
                None \<Rightarrow> None
              | Some (Panics p) \<Rightarrow> Some (Panics p)
              | Some (Returns parts) \<Rightarrow>
                  Some (Returns (sendParts_rev1 w chatID (length parts) 0 parts tr1))))"

definition handleCommand ::
  "collab \<Rightarrow> TelegramBot \<times> effect list \<Rightarrow> int64 \<Rightarrow> string \<Rightarrow> (TelegramBot \<times> effect list) outcome option" where
  "handleCommand w st chatID command =
     (let (tbot, tr) = st
      in if command = ''/start'' then
           (let (tr1, err) = SendMessage w tr chatID msgStart
            in Some (Returns (tbot,
                 (case err of None \<Rightarrow> tr1
                  | Some e \<Rightarrow> tr1 @ [Log (LogSendFailed (sanitizeError tbot e))]))))
         else if command = ''/help'' then
           (let (tr1, err) = SendMessage w tr chatID msgHelp
            in Some (Returns (tbot,
                 (case err of None \<Rightarrow> tr1
                  | Some e \<Rightarrow> tr1 @ [Log (LogSendFailed (sanitizeError tbot e))]))))
         else handleTextMessage w st chatID command)"

text \<open>The current revision (ollama.go, lines 390 to 414); \<open>message\<close> is a pointer.\<close>

definition HandleMessage ::
  "collab \<Rightarrow> TelegramBot \<times> effect list \<Rightarrow> Message option \<Rightarrow> (TelegramBot \<times> effect list) outcome option" where
  "HandleMessage w st message =
     (let (tbot, tr) = st
      in case message of
           None \<Rightarrow> Some (Returns st)
         | Some m \<Rightarrow>
             (case Chat m of
                None \<Rightarrow> Some (Returns st)
              | Some c \<Rightarrow>
                  (case isUserAllowed tbot m of
                     Inl p \<Rightarrow> Some (Panics p)
                   | Inr allowed \<Rightarrow>
                       if \<not> allowed
                       then Some (Returns (tbot, tr @ [Log (LogUnauthorized (Chat_ID c))]))
                       else
                         (let chatID = Chat_ID c; text = Text m
                          in if length text > 0 \<and> text ! 0 = CHR ''/''
                             then handleCommand w st chatID text
                             else if text \<noteq> [] then handleTextMessage w st chatID text
                             else Some (Returns st)))))"

section \<open>Intake loop (main.go) and GetUpdates\<close>

text \<open>
  \<open>GetUpdates\<close> requests \<open>offset = LastUpdate + 1\<close> (an \<open>int64\<close> addition); the
  transport's answer to that offset is the parameter \<open>telegram\<close>: \<open>Inl\<close> the error,
  \<open>Inr\<close> the updates.
\<close>

definition GetUpdates ::
  "(int64 \<Rightarrow> string + Update list) \<Rightarrow> TelegramBot \<times> effect list \<Rightarrow> effect list \<times> (string + Update list)" where
  "GetUpdates telegram st =
     (let (tbot, tr) = st; offset = LastUpdate tbot + 1
      in (tr @ [Fetch offset], telegram offset))"

text \<open>
  The body of \<open>for _, update := range updates\<close> (main.go, lines 105 to 113); \<open>ws i\<close>
  are the collaborators while the update of index \<open>i\<close> is handled. \<open>int64\<close> values are
  compared as signed numbers.
\<close>

definition advance :: "TelegramBot \<Rightarrow> Update \<Rightarrow> TelegramBot" where
  "advance tbot update =
     (if sint (UpdateID update) > sint (LastUpdate tbot)
      then tbot\<lparr>LastUpdate := UpdateID update\<rparr> else tbot)"

fun processUpdates ::
  "(nat \<Rightarrow> collab) \<Rightarrow> nat \<Rightarrow> TelegramBot \<times> effect list \<Rightarrow> Update list \<Rightarrow> (TelegramBot \<times> effect list) outcome option" where
  "processUpdates ws i st [] = Some (Returns st)"
| "processUpdates ws i st (update # rest) =
     (let st1 = (advance (fst st) update, snd st)
      in case (case Msg update of None \<Rightarrow> Some (Returns st1)
               | Some m \<Rightarrow> HandleMessage (ws i) st1 (Some m)) of
           None \<Rightarrow> None
         | Some (Panics p) \<Rightarrow> Some (Panics p)
         | Some (Returns st2) \<Rightarrow> processUpdates ws (i + 1) st2 rest)"

datatype control = Continue | Return

text \<open>
  One iteration of the goroutine's loop, current revision (main.go, lines 91 to 115):
  \<open>cancelled\<close> says whether \<open>ctx.Done()\<close> is ready at the \<open>select\<close>.
\<close>

definition loopIteration ::
  "bool \<Rightarrow> (int64 \<Rightarrow> string + Update list) \<Rightarrow> (nat \<Rightarrow> collab) \<Rightarrow> TelegramBot \<times> effect list
     \<Rightarrow> ((TelegramBot \<times> effect list) \<times> control) outcome option" where
  "loopIteration cancelled telegram ws st =
     (if cancelled then Some (Returns (st, Return))
      else
        (let (tr1, res) = GetUpdates telegram st
         in case res of
              Inl err \<Rightarrow>
                Some (Returns ((fst st, tr1 @ [Log (LogGetUpdatesFailed (Raw err)), Sleep 5000000000]),
                               Continue))
            | Inr updates \<Rightarrow>
                (case processUpdates ws 0 (fst st, tr1) updates of
                   None \<Rightarrow> None
                 | Some (Panics p) \<Rightarrow> Some (Panics p)
                 | Some (Returns st2) \<Rightarrow> Some (Returns (st2, Continue)))))"

text \<open>
  The earlier revision (main.go, lines 31 to 49): no cancellation, and on an error the
  loop continues at once. The handling of the updates is the parameter \<open>process\<close>.
\<close>

definition loopIteration_rev1 ::
  "(TelegramBot \<times> effect list \<Rightarrow> Update list \<Rightarrow> (TelegramBot \<times> effect list) outcome option)
     \<Rightarrow> (int64 \<Rightarrow> string + Update list) \<Rightarrow> TelegramBot \<times> effect list
     \<Rightarrow> ((TelegramBot \<times> effect list) \<times> control) outcome option" where
  "loopIteration_rev1 process telegram st =
     (let (tr1, res) = GetUpdates telegram st
      in case res of
           Inl err \<Rightarrow>
             Some (Returns ((fst st, tr1 @ [Log (LogGetUpdatesFailed (Raw err))]), Continue))
         | Inr updates \<Rightarrow>
             (case process (fst st, tr1) updates of
                None \<Rightarrow> None
              | Some (Panics p) \<Rightarrow> Some (Panics p)
              | Some (Returns st2) \<Rightarrow> Some (Returns (st2, Continue))))"

text \<open>The messages sent and the log lines written, in order, read off a trace.\<close>

fun sends :: "effect list \<Rightarrow> (int64 \<times> string) list" where
  "sends [] = []"
| "sends (Send c t # tr) = (c, t) # sends tr"
| "sends (e # tr) = sends tr"

fun logs :: "effect list \<Rightarrow> logline list" where
  "logs [] = []"
| "logs (Log l # tr) = l # logs tr"
| "logs (e # tr) = logs tr"

text \<open>The messages a handler call has sent when it returns.\<close>

definition sentBy :: "(TelegramBot \<times> effect list) outcome option \<Rightarrow> (int64 \<times> string) list option" where
  "sentBy r = (case r of Some (Returns st) \<Rightarrow> Some (sends (snd st)) | _ \<Rightarrow> None)"

text \<open>The parts as \<open>handleTextMessage\<close> sends them: the first one marked when there are several.\<close>

definition marked :: "string list \<Rightarrow> string list" where
  "marked parts =
     (case parts of [] \<Rightarrow> []
      | p # rest \<Rightarrow> (if length parts > 1 then p @ continuationMarker else p) # rest)"

text \<open>
  The watermark (as a signed number) once a batch has been processed, from the state
  \<open>processUpdates\<close> returns.
\<close>

definition watermarkAfter ::
  "(nat \<Rightarrow> collab) \<Rightarrow> nat \<Rightarrow> TelegramBot \<times> effect list \<Rightarrow> Update list \<Rightarrow> int option" where
  "watermarkAfter ws i st updates =
     (case processUpdates ws i st updates of
        Some (Returns st1) \<Rightarrow> Some (sint (LastUpdate (fst st1)))
      | _ \<Rightarrow> None)"

section \<open>Concrete inputs of the examples\<close>

text \<open>
  An environment with no variable set; a message in a private chat (sender and chat have
  the same identity); a channel post, which has no sender; collaborators whose backend
  gives one fixed answer and whose sends succeed; an update that carries no message.
\<close>

definition envUnset :: environ where
  "envUnset = \<lparr>ALLOWED_USER_IDS = [], RATE_LIMIT_MAX = None, RATE_LIMIT_WINDOW = None,
               MAX_PROMPT_LENGTH = None\<rparr>"

definition privateMessage :: "int64 \<Rightarrow> string \<Rightarrow> Message" where
  "privateMessage i t =
     \<lparr>MessageID = 1,
      From = Some \<lparr>User_ID = i, User_FirstName = ''u'', User_Username = ''u''\<rparr>,
      Chat = Some \<lparr>Chat_ID = i, Chat_Type = ''private'', Chat_FirstName = ''u'',
                   Chat_Username = ''u''\<rparr>,
      Text = t, Date = 0\<rparr>"

definition channelPost :: "int64 \<Rightarrow> string \<Rightarrow> Message" where
  "channelPost i t =
     \<lparr>MessageID = 1, From = None,
      Chat = Some \<lparr>Chat_ID = i, Chat_Type = ''channel'', Chat_FirstName = [],
                   Chat_Username = ''c''\<rparr>,
      Text = t, Date = 0\<rparr>"

definition backendAnswers :: "string + string \<Rightarrow> collab" where
  "backendAnswers r =
     \<lparr>clock = 0, SendPrompt = (\<lambda>prompt. r), sendResult = (\<lambda>chatID text. None)\<rparr>"

definition bareUpdate :: "int64 \<Rightarrow> Update" where
  "bareUpdate i = \<lparr>UpdateID = i, Msg = None\<rparr>"

section \<open>Properties of the access guard\<close>

lemma parseAllowed_apply:
  "parseAllowed m ids k = (if Some k \<in> set ids then Some True else m k)"
proof (induction ids arbitrary: m)
  case Nil
  show ?case by simp
next
  case (Cons r rest)
  show ?case
  proof (cases r)
    case None
    then show ?thesis by (simp add: Cons.IH)
  next
    case (Some i)
    then show ?thesis by (simp add: Cons.IH [of "m(i \<mapsto> True)"])
  qed
qed

lemma dom_parseAllowed:
  "dom (parseAllowed Map.empty ids) = {i. Some i \<in> set ids}"
  by (auto simp: parseAllowed_apply dom_def)

lemma lookup_parseAllowed:
  "lookup_bool (parseAllowed Map.empty ids) k = (Some k \<in> set ids)"
  by (simp add: lookup_bool_def parseAllowed_apply)

lemma len_map_zero: "len_map (m :: int64 \<rightharpoonup> 'v) = 0 \<longleftrightarrow> dom m = {}"
  by (simp add: len_map_def)

lemma len_parseAllowed:
  "len_map (parseAllowed Map.empty ids) = 0 \<longleftrightarrow> {i. Some i \<in> set ids} = {}"
  by (simp add: len_map_zero dom_parseAllowed)

lemma allowList_iff: "i \<in> allowList env \<longleftrightarrow> Some i \<in> set (ALLOWED_USER_IDS env)"
  by (simp add: allowList_def in_these_eq)

lemma len_AllowedUsers:
  "len_map (AllowedUsers (NewTelegramBot token env)) = 0 \<longleftrightarrow> allowList env = {}"
  by (auto simp: NewTelegramBot_def len_map_zero dom_parseAllowed allowList_iff)

lemma lookup_AllowedUsers:
  "lookup_bool (AllowedUsers (NewTelegramBot token env)) i \<longleftrightarrow> i \<in> allowList env"
  by (simp add: NewTelegramBot_def lookup_parseAllowed allowList_iff)

text \<open>
  Claim C8. \<open>AllowedUsers\<close> is written by \<open>NewTelegramBot\<close> only. With an empty
  configured allow-list \<open>isUserAllowed\<close> answers true for every message; with a
  non-empty one it answers true exactly when the sender's identity is in the list.
\<close>

theorem isUserAllowed_allow_list:
  assumes "AllowedUsers tbot = AllowedUsers (NewTelegramBot token env)"
  shows "(allowList env = {} \<longrightarrow> isUserAllowed tbot message = Inr True) \<and>
         (allowList env \<noteq> {} \<and> From message = Some u \<longrightarrow>
            isUserAllowed tbot message = Inr (User_ID u \<in> allowList env))"
  by (simp add: isUserAllowed_def assms len_AllowedUsers lookup_AllowedUsers)

text \<open>With the allow-list \<open>{5}\<close>: identity 5 is allowed, identity 6 is not.\<close>

theorem isUserAllowed_allow_list_witness:
  "allowList (envUnset\<lparr>ALLOWED_USER_IDS := [Some 5]\<rparr>) = {5} \<and>
   isUserAllowed (NewTelegramBot ''t'' (envUnset\<lparr>ALLOWED_USER_IDS := [Some 5]\<rparr>))
     (privateMessage 5 ''hi'') = Inr True \<and>
   isUserAllowed (NewTelegramBot ''t'' (envUnset\<lparr>ALLOWED_USER_IDS := [Some 5]\<rparr>))
     (privateMessage 6 ''hi'') = Inr False \<and>
   allowList envUnset = {} \<and>
   isUserAllowed (NewTelegramBot ''t'' envUnset) (privateMessage 6 ''hi'') = Inr True"
proof -
  let ?env5 = "envUnset\<lparr>ALLOWED_USER_IDS := [Some 5]\<rparr>"
  have a5: "allowList ?env5 = {5}" by (simp add: allowList_def envUnset_def)
  have a0: "allowList envUnset = {}" by (simp add: allowList_def envUnset_def)
  have f: "From (privateMessage i t) =
             Some \<lparr>User_ID = i, User_FirstName = ''u'', User_Username = ''u''\<rparr>" for i t
    by (simp add: privateMessage_def)
  show ?thesis
    using a5 a0
      isUserAllowed_allow_list [OF refl, where token = "''t''" and env = ?env5
        and message = "privateMessage 5 ''hi''" and u =
        "\<lparr>User_ID = 5, User_FirstName = ''u'', User_Username = ''u''\<rparr>"]
      isUserAllowed_allow_list [OF refl, where token = "''t''" and env = ?env5
        and message = "privateMessage 6 ''hi''" and u =
        "\<lparr>User_ID = 6, User_FirstName = ''u'', User_Username = ''u''\<rparr>"]
      isUserAllowed_allow_list [OF refl, where token = "''t''" and env = envUnset
        and message = "privateMessage 6 ''hi''"]
    by (simp add: f)
qed

section \<open>Properties of the rate limiter\<close>

lemma filterRecent_filter:
  "filterRecent windowStart recent ts = recent @ filter (\<lambda>t. \<not> t \<le> windowStart) ts"
  by (induction ts arbitrary: recent) (auto simp: not_le)

lemma checkRateLimit_spec:
  "checkRateLimit now tbot userID =
     (tbot\<lparr>rateLimiter := fst (spec_checkAndRecord (maxRequests tbot) (rateWindow tbot) now (rateLimiter tbot) userID)\<rparr>,
      snd (spec_checkAndRecord (maxRequests tbot) (rateWindow tbot) now (rateLimiter tbot) userID))"
  by (simp add: checkRateLimit_def spec_checkAndRecord_def filterRecent_filter lookup_times_def Let_def)

lemma checkRateLimits_spec:
  "checkRateLimits tbot calls =
     (tbot\<lparr>rateLimiter := fst (spec_run (maxRequests tbot) (rateWindow tbot) (rateLimiter tbot) calls)\<rparr>,
      snd (spec_run (maxRequests tbot) (rateWindow tbot) (rateLimiter tbot) calls))"
proof (induction calls arbitrary: tbot)
  case Nil
  show ?case by simp
next
  case (Cons call calls)
  obtain now userID where call: "call = (now, userID)" by (cases call)
  show ?case
    by (simp add: call checkRateLimit_spec Cons.IH split: prod.splits)
qed

text \<open>
  Claim C1. Every call of \<open>checkRateLimit\<close>, and every sequence of calls, computes what
  the reference sliding window computes on the bot's mapping, capacity and window, and
  changes nothing else of the bot. With capacity 2 and window 60, calls at 0, 1, 2 and 61
  for one identity answer true, true, false, true.
\<close>

theorem checkRateLimit_sliding_window:
  "checkRateLimit now tbot userID =
     (tbot\<lparr>rateLimiter :=
         fst (spec_checkAndRecord (maxRequests tbot) (rateWindow tbot) now (rateLimiter tbot) userID)\<rparr>,
      snd (spec_checkAndRecord (maxRequests tbot) (rateWindow tbot) now (rateLimiter tbot) userID)) \<and>
   checkRateLimits tbot calls =
     (tbot\<lparr>rateLimiter :=
         fst (spec_run (maxRequests tbot) (rateWindow tbot) (rateLimiter tbot) calls)\<rparr>,
      snd (spec_run (maxRequests tbot) (rateWindow tbot) (rateLimiter tbot) calls)) \<and>
   snd (checkRateLimits (tbot\<lparr>rateLimiter := Map.empty, maxRequests := 2, rateWindow := 60\<rparr>)
          [(0, userID), (1, userID), (2, userID), (61, userID)]) = [True, True, False, True]"
proof (intro conjI)
  show "checkRateLimit now tbot userID =
     (tbot\<lparr>rateLimiter :=
         fst (spec_checkAndRecord (maxRequests tbot) (rateWindow tbot) now (rateLimiter tbot) userID)\<rparr>,
      snd (spec_checkAndRecord (maxRequests tbot) (rateWindow tbot) now (rateLimiter tbot) userID))"
    by (rule checkRateLimit_spec)
  show "checkRateLimits tbot calls =
     (tbot\<lparr>rateLimiter :=
         fst (spec_run (maxRequests tbot) (rateWindow tbot) (rateLimiter tbot) calls)\<rparr>,
      snd (spec_run (maxRequests tbot) (rateWindow tbot) (rateLimiter tbot) calls))"
    by (rule checkRateLimits_spec)
  show "snd (checkRateLimits (tbot\<lparr>rateLimiter := Map.empty, maxRequests := 2, rateWindow := 60\<rparr>)
          [(0, userID), (1, userID), (2, userID), (61, userID)]) = [True, True, False, True]"
    by (simp add: checkRateLimit_def lookup_times_def Let_def)
qed

text \<open>The example on the bot configured with capacity 2 and window 60, and on the reference.\<close>

theorem checkRateLimit_sliding_window_witness:
  "snd (checkRateLimits (NewTelegramBot ''t'' \<lparr>ALLOWED_USER_IDS = [], RATE_LIMIT_MAX = Some 2,
          RATE_LIMIT_WINDOW = Some 60, MAX_PROMPT_LENGTH = None\<rparr>)
        [(0, 7), (1, 7), (2, 7), (61, 7)]) = [True, True, False, True] \<and>
   snd (spec_run 2 60 Map.empty [(0, 7), (1, 7), (2, 7), (61, 7)]) = [True, True, False, True]"
proof -
  let ?b = "NewTelegramBot ''t'' \<lparr>ALLOWED_USER_IDS = [], RATE_LIMIT_MAX = Some 2,
          RATE_LIMIT_WINDOW = Some 60, MAX_PROMPT_LENGTH = None\<rparr>"
  have b: "?b\<lparr>rateLimiter := Map.empty, maxRequests := 2, rateWindow := 60\<rparr> = ?b"
    by (simp add: NewTelegramBot_def positiveOr_def)
  have m: "maxRequests ?b = 2" "rateWindow ?b = 60" "rateLimiter ?b = Map.empty"
    by (simp_all add: NewTelegramBot_def positiveOr_def)
  note T = checkRateLimit_sliding_window [where tbot = ?b and calls = "[(0, 7), (1, 7), (2, 7), (61, 7)]" and userID = 7 and now = 0]
  have e1: "snd (checkRateLimits ?b [(0, 7), (1, 7), (2, 7), (61, 7)]) = [True, True, False, True]"
    using T [THEN conjunct2, THEN conjunct2] by (simp only: b)
  have "snd (checkRateLimits ?b [(0, 7), (1, 7), (2, 7), (61, 7)]) =
        snd (spec_run (maxRequests ?b) (rateWindow ?b) (rateLimiter ?b) [(0, 7), (1, 7), (2, 7), (61, 7)])"
    using arg_cong [OF T [THEN conjunct2, THEN conjunct1], of snd] by (simp only: snd_conv)
  then have e2: "snd (spec_run 2 60 Map.empty [(0, 7), (1, 7), (2, 7), (61, 7)]) = [True, True, False, True]"
    using e1 by (simp only: m)
  from e1 e2 show ?thesis by (rule conjI)
qed

lemma lookup_times_upd:
  "lookup_times (m(k \<mapsto> v)) i = (if i = k then v else lookup_times m i)"
  by (simp add: lookup_times_def)

lemma checkRateLimit_stored:
  "lookup_times (rateLimiter (fst (checkRateLimit now tbot userID))) ident =
     (if ident = userID
      then filter (\<lambda>t. now - rateWindow tbot < t) (lookup_times (rateLimiter tbot) userID) @
             (if snd (checkRateLimit now tbot userID) then [now] else [])
      else lookup_times (rateLimiter tbot) ident)"
  by (auto simp: checkRateLimit_def Let_def lookup_times_upd filterRecent_filter not_le)

lemma checkRateLimit_answer:
  "snd (checkRateLimit now tbot userID) \<longleftrightarrow>
     int (length (filter (\<lambda>t. now - rateWindow tbot < t) (lookup_times (rateLimiter tbot) userID)))
       < maxRequests tbot"
  by (auto simp: checkRateLimit_def Let_def filterRecent_filter not_le)

lemma checkRateLimit_frame:
  "maxRequests (fst (checkRateLimit now tbot userID)) = maxRequests tbot"
  "rateWindow (fst (checkRateLimit now tbot userID)) = rateWindow tbot"
  "LastUpdate (fst (checkRateLimit now tbot userID)) = LastUpdate tbot"
  "AllowedUsers (fst (checkRateLimit now tbot userID)) = AllowedUsers tbot"
  "maxPromptLen (fst (checkRateLimit now tbot userID)) = maxPromptLen tbot"
  "Token (fst (checkRateLimit now tbot userID)) = Token tbot"
  by (simp_all add: checkRateLimit_def Let_def)

lemma checkRateLimit_inv:
  assumes "\<And>i. int (length (lookup_times (rateLimiter tbot) i)) \<le> maxRequests tbot"
  shows "int (length (lookup_times (rateLimiter (fst (checkRateLimit now tbot userID))) i))
           \<le> maxRequests tbot"
proof (cases "i = userID")
  case False
  then show ?thesis using assms [of i] by (simp add: checkRateLimit_stored)
next
  case True
  let ?kept = "filter (\<lambda>t. now - rateWindow tbot < t) (lookup_times (rateLimiter tbot) userID)"
  have le: "int (length ?kept) \<le> maxRequests tbot"
    using assms [of userID] length_filter_le [of "\<lambda>t. now - rateWindow tbot < t" "lookup_times (rateLimiter tbot) userID"]
    by linarith
  show ?thesis
  proof (cases "snd (checkRateLimit now tbot userID)")
    case True
    then have "int (length ?kept) < maxRequests tbot" by (simp add: checkRateLimit_answer)
    then show ?thesis using True \<open>i = userID\<close> by (simp add: checkRateLimit_stored)
  next
    case False
    then show ?thesis using le \<open>i = userID\<close> by (simp add: checkRateLimit_stored)
  qed
qed

lemma NewTelegramBot_capacity: "0 < maxRequests (NewTelegramBot token env)"
  by (simp add: NewTelegramBot_def positiveOr_def split: option.splits)

lemma fst_checkRateLimits_Cons:
  "fst (checkRateLimits tbot ((now, userID) # calls)) =
     fst (checkRateLimits (fst (checkRateLimit now tbot userID)) calls)"
  by (simp add: case_prod_beta)

lemma checkRateLimits_inv:
  "(\<And>i. int (length (lookup_times (rateLimiter tbot) i)) \<le> maxRequests tbot) \<Longrightarrow>
   int (length (lookup_times (rateLimiter (fst (checkRateLimits tbot calls))) i)) \<le> maxRequests tbot"
proof (induction calls arbitrary: tbot)
  case Nil
  then show ?case by simp
next
  case (Cons call calls)
  obtain now userID where call: "call = (now, userID)" by (cases call)
  let ?b1 = "fst (checkRateLimit now tbot userID)"
  have inv1: "\<And>j. int (length (lookup_times (rateLimiter ?b1) j)) \<le> maxRequests ?b1"
    using checkRateLimit_inv [where tbot = tbot and now = now and userID = userID] Cons.prems by (simp add: checkRateLimit_frame)
  have "int (length (lookup_times (rateLimiter (fst (checkRateLimits ?b1 calls))) i)) \<le> maxRequests ?b1"
    by (rule Cons.IH [OF inv1])
  then show ?case by (simp only: call fst_checkRateLimits_Cons checkRateLimit_frame)
qed

text \<open>
  Claim C9. Starting from the empty mapping with a capacity that is not negative (every
  bot that \<open>NewTelegramBot\<close> builds is such a start), after every sequence of calls
  every identity has at most \<open>maxRequests\<close> stored timestamps.
  A call stores for its identity the timestamps of the window, followed by \<open>now\<close> exactly
  when it accepts, and leaves the other identities' lists as they were.
\<close>

theorem rateLimiter_within_capacity:
  "(0 \<le> maxRequests tbot \<and> rateLimiter tbot = Map.empty \<longrightarrow>
      int (length (lookup_times (rateLimiter (fst (checkRateLimits tbot calls))) ident))
        \<le> maxRequests tbot) \<and>
   int (length (lookup_times
          (rateLimiter (fst (checkRateLimits (NewTelegramBot token env) calls))) ident))
     \<le> maxRequests (NewTelegramBot token env) \<and>
   lookup_times (rateLimiter (fst (checkRateLimit now tbot userID))) userID =
     filter (\<lambda>t. now - rateWindow tbot < t) (lookup_times (rateLimiter tbot) userID) @
       (if snd (checkRateLimit now tbot userID) then [now] else []) \<and>
   (ident \<noteq> userID \<longrightarrow>
      lookup_times (rateLimiter (fst (checkRateLimit now tbot userID))) ident =
        lookup_times (rateLimiter tbot) ident)"
proof (intro conjI impI)
  assume a: "0 \<le> maxRequests tbot \<and> rateLimiter tbot = Map.empty"
  then have "\<And>i. int (length (lookup_times (rateLimiter tbot) i)) \<le> maxRequests tbot"
    by (simp add: lookup_times_def)
  then show "int (length (lookup_times (rateLimiter (fst (checkRateLimits tbot calls))) ident))
        \<le> maxRequests tbot"
    by (rule checkRateLimits_inv)
next
  have "\<And>i. int (length (lookup_times (rateLimiter (NewTelegramBot token env)) i))
          \<le> maxRequests (NewTelegramBot token env)"
    using NewTelegramBot_capacity [of token env]
    by (simp add: lookup_times_def NewTelegramBot_def)
  then show "int (length (lookup_times
          (rateLimiter (fst (checkRateLimits (NewTelegramBot token env) calls))) ident))
     \<le> maxRequests (NewTelegramBot token env)"
    by (rule checkRateLimits_inv)
qed (simp_all add: checkRateLimit_stored)

text \<open>
  Capacity 2, window 60, calls at 0, 1, 2 for identity 7, at 3 for identity 8 and at 61 for
  identity 7: the list of identity 7 ends as the single timestamp 61.
\<close>

theorem rateLimiter_within_capacity_witness:
  "lookup_times (rateLimiter (fst (checkRateLimits
      (NewTelegramBot ''t'' \<lparr>ALLOWED_USER_IDS = [], RATE_LIMIT_MAX = Some 2,
          RATE_LIMIT_WINDOW = Some 60, MAX_PROMPT_LENGTH = None\<rparr>)
      [(0, 7), (1, 7), (2, 7), (3, 8), (61, 7)]))) 7 = [61] \<and>
   int (length (lookup_times (rateLimiter (fst (checkRateLimits
      (NewTelegramBot ''t'' \<lparr>ALLOWED_USER_IDS = [], RATE_LIMIT_MAX = Some 2,
          RATE_LIMIT_WINDOW = Some 60, MAX_PROMPT_LENGTH = None\<rparr>)
      [(0, 7), (1, 7), (2, 7), (3, 8), (61, 7)]))) 7)) \<le> 2"
proof -
  let ?b = "NewTelegramBot ''t'' \<lparr>ALLOWED_USER_IDS = [], RATE_LIMIT_MAX = Some 2,
          RATE_LIMIT_WINDOW = Some 60, MAX_PROMPT_LENGTH = None\<rparr>"
  have m: "maxRequests ?b = 2" "rateWindow ?b = 60" "rateLimiter ?b = Map.empty"
    by (simp_all add: NewTelegramBot_def positiveOr_def)
  have v: "lookup_times (rateLimiter (fst (checkRateLimits ?b
      [(0, 7), (1, 7), (2, 7), (3, 8), (61, 7)]))) 7 = [61]"
    by (simp add: checkRateLimit_def lookup_times_def Let_def m)
  from rateLimiter_within_capacity [where tbot = ?b and calls = "[(0, 7), (1, 7), (2, 7), (3, 8), (61, 7)]" and ident = 7 and now = 0 and userID = 7] m
  have "int (length (lookup_times (rateLimiter (fst (checkRateLimits ?b
      [(0, 7), (1, 7), (2, 7), (3, 8), (61, 7)]))) 7)) \<le> 2" by simp
  with v show ?thesis by simp
qed

section \<open>Properties of the segmenter\<close>

declare searchBack.simps [simp del]

lemma searchBack_range:
  "i \<le> maxLen \<Longrightarrow>
   searchBack c current maxLen k i = maxLen \<or>
   (0 < searchBack c current maxLen k i \<and> maxLen - k < searchBack c current maxLen k i \<and>
    searchBack c current maxLen k i \<le> i)"
proof (induction c current maxLen k i rule: searchBack.induct)
  case (1 c current maxLen k i)
  note unfold = searchBack.simps [of c current maxLen k i]
  show ?case
  proof (cases "i > 0 \<and> i > maxLen - k")
    case False
    then have "searchBack c current maxLen k i = maxLen" using unfold by auto
    then show ?thesis by simp
  next
    case True
    show ?thesis
    proof (cases "current ! nat (i - 1) = c")
      case hit: True
      have "searchBack c current maxLen k i = i"
        using True hit unfold by simp
      then show ?thesis using True by simp
    next
      case miss: False
      have eq: "searchBack c current maxLen k i = searchBack c current maxLen k (i - 1)"
        using True miss unfold by simp
      have "i - 1 \<le> maxLen" using "1.prems" by simp
      from "1.IH" [OF True miss this] show ?thesis unfolding eq by auto
    qed
  qed
qed

lemma splitLoop_done:
  "\<not> int (length current) > maxLen \<Longrightarrow>
   splitLoop maxLen current parts =
     Some (Returns (if length current > 0 then parts @ [current] else parts))"
  by (subst splitLoop.simps) simp

lemma splitLoop_step:
  assumes pos: "0 < maxLen" and long: "maxLen < int (length current)"
  obtains sp where "0 < sp" "sp \<le> maxLen" "maxLen - 100 < sp"
    "\<And>parts. splitLoop maxLen current parts =
       splitLoop maxLen (skipLeading (drop (nat sp) current)) (parts @ [take (nat sp) current])"
proof -
  define sp0 where "sp0 = searchBack (CHR 0x0A) current maxLen 100 maxLen"
  define sp1 where "sp1 = (if sp0 = maxLen then searchBack (CHR '' '') current maxLen 50 maxLen else sp0)"
  have r0: "sp0 = maxLen \<or> (0 < sp0 \<and> maxLen - 100 < sp0 \<and> sp0 \<le> maxLen)"
    unfolding sp0_def by (rule searchBack_range) simp
  have r1: "searchBack (CHR '' '') current maxLen 50 maxLen = maxLen \<or>
            (0 < searchBack (CHR '' '') current maxLen 50 maxLen \<and>
             maxLen - 50 < searchBack (CHR '' '') current maxLen 50 maxLen \<and>
             searchBack (CHR '' '') current maxLen 50 maxLen \<le> maxLen)"
    by (rule searchBack_range) simp
  have b: "0 < sp1" "sp1 \<le> maxLen" "maxLen - 100 < sp1"
    using r0 r1 pos unfolding sp1_def by auto
  have "splitLoop maxLen current parts =
       splitLoop maxLen (skipLeading (drop (nat sp1) current)) (parts @ [take (nat sp1) current])"
    for parts
    using b long unfolding sp1_def sp0_def
    by (subst splitLoop.simps) (auto simp: Let_def)
  with b show thesis by (rule that)
qed

lemma skipLeading_split: "\<exists>w. whitespace w \<and> xs = w @ skipLeading xs"
proof (induction xs)
  case Nil
  show ?case by (simp add: whitespace_def)
next
  case (Cons c cs)
  then obtain w where w: "whitespace w" "cs = w @ skipLeading cs" by blast
  show ?case
  proof (cases "c = CHR '' '' \<or> c = CHR 0x0A")
    case True
    then have "whitespace (c # w)" using w(1) by (auto simp: whitespace_def)
    moreover have "c # cs = (c # w) @ skipLeading (c # cs)" using True w(2) by auto
    ultimately show ?thesis by blast
  next
    case False
    then have "c # cs = [] @ skipLeading (c # cs)" by simp
    moreover have "whitespace []" by (simp add: whitespace_def)
    ultimately show ?thesis by blast
  qed
qed

lemma length_skipLeading: "length (skipLeading xs) \<le> length xs"
  by (induction xs) auto

lemma splitLoop_returns:
  assumes pos: "0 < maxLen"
  shows "\<exists>ps ws. splitLoop maxLen current parts = Some (Returns (parts @ ps)) \<and>
           length ws = length ps \<and> list_all whitespace ws \<and> current = weave ps ws \<and>
           list_all (\<lambda>p. int (length p) \<le> maxLen) ps \<and>
           (maxLen < int (length current) \<longrightarrow> ps \<noteq> []) \<and>
           (current \<noteq> [] \<longrightarrow> ps \<noteq> []) \<and>
           length ps \<le> length current div (max 1 (nat (maxLen - 99))) + 1 \<and>
           (ps \<noteq> [] \<longrightarrow> last ws \<noteq> [] \<longrightarrow> maxLen < int (length (last ps @ last ws)))"
proof (induction "length current" arbitrary: current parts rule: less_induct)
  case less
  let ?m = "max 1 (nat (maxLen - 99))"
  show ?case
  proof (cases "maxLen < int (length current)")
    case False
    show ?thesis
    proof (cases "current = []")
      case True
      have "splitLoop maxLen current parts = Some (Returns (parts @ []))"
        using False True by (simp add: splitLoop_done)
      moreover have "length ([]::string list) = length ([]::string list)" by simp
      ultimately show ?thesis using True False
        by (intro exI [of _ "[]"]) simp
    next
      case ne: False
      have "splitLoop maxLen current parts = Some (Returns (parts @ [current]))"
        using False ne by (simp add: splitLoop_done)
      then show ?thesis using False ne
        by (intro exI [of _ "[current]"] exI [of _ "[[]]"]) (simp add: whitespace_def)
    qed
  next
    case True
    from splitLoop_step [OF pos True] obtain sp where
      sp: "0 < sp" "sp \<le> maxLen" "maxLen - 100 < sp" and
      step: "\<And>parts. splitLoop maxLen current parts =
        splitLoop maxLen (skipLeading (drop (nat sp) current)) (parts @ [take (nat sp) current])"
      by blast
    let ?chunk = "take (nat sp) current"
    let ?rest = "drop (nat sp) current"
    let ?cur = "skipLeading ?rest"
    obtain w where w: "whitespace w" "?rest = w @ ?cur"
      using skipLeading_split [of ?rest] by blast
    have lrest: "length ?rest = length current - nat sp" by simp
    have lcur: "length ?cur \<le> length current - nat sp"
      using length_skipLeading [of ?rest] by simp
    have lt: "length ?cur < length current" using lcur sp True by linarith
    from less [OF lt, of "parts @ [?chunk]"] obtain ps ws where
      r: "splitLoop maxLen ?cur (parts @ [?chunk]) = Some (Returns ((parts @ [?chunk]) @ ps))"
        "length ws = length ps" "list_all whitespace ws" "?cur = weave ps ws"
        "list_all (\<lambda>p. int (length p) \<le> maxLen) ps"
        "length ps \<le> length ?cur div ?m + 1"
        "ps \<noteq> [] \<longrightarrow> last ws \<noteq> [] \<longrightarrow> maxLen < int (length (last ps @ last ws))"
      by blast
    have e: "splitLoop maxLen current parts = Some (Returns (parts @ (?chunk # ps)))"
      using step [of parts] r(1) by simp
    have cur: "current = weave (?chunk # ps) (w # ws)"
    proof -
      have "current = ?chunk @ ?rest" by simp
      also have "\<dots> = ?chunk @ w @ weave ps ws" using w(2) r(4) by simp
      finally show ?thesis by simp
    qed
    have lchunk: "int (length ?chunk) \<le> maxLen" using sp True by simp
    have "nat (maxLen - 99) \<le> nat sp" using sp by (intro nat_mono) simp
    moreover have "1 \<le> nat sp" using sp by simp
    ultimately have msp: "?m \<le> nat sp" by simp
    have mcur: "?m \<le> length current" using msp sp True by linarith
    have "length ?cur div ?m \<le> (length current - ?m) div ?m"
      using lcur msp by (intro div_le_mono) linarith
    also have "(length current - ?m) div ?m + 1 = length current div ?m"
      using mcur by (simp add: le_div_geq)
    finally have cnt: "length (?chunk # ps) \<le> length current div ?m + 1"
      using r(6) by simp
    have run: "last (w # ws) \<noteq> [] \<longrightarrow>
        maxLen < int (length (last (?chunk # ps) @ last (w # ws)))"
    proof (cases "ps = []")
      case True
      then have "ws = []" using r(2) by simp
      moreover have "current = ?chunk @ w" using cur True \<open>ws = []\<close> by simp
      then have "length (?chunk @ w) = length current" by simp
      ultimately show ?thesis using True \<open>maxLen < int (length current)\<close> by simp
    next
      case False
      then have "ws \<noteq> []" using r(2) by auto
      then show ?thesis using False r(7) by simp
    qed
    show ?thesis
      using e cur lchunk cnt r(2,3,5) w(1) run
      by (intro exI [of _ "?chunk # ps"] exI [of _ "w # ws"]) simp
  qed
qed

lemma SplitMessage_returns:
  assumes "0 < maxLen"
  shows "\<exists>parts. SplitMessage text maxLen = Some (Returns parts) \<and> rebuilds maxLen text parts \<and>
           list_all (\<lambda>p. int (length p) \<le> maxLen) parts \<and> parts \<noteq> [] \<and>
           length parts \<le> length text div (max 1 (nat (maxLen - 99))) + 1 \<and>
           (int (length text) \<le> maxLen \<longrightarrow> parts = [text])"
proof (cases "int (length text) \<le> maxLen")
  case True
  have "text = weave [text] [[]]" by simp
  then have "rebuilds maxLen text [text]"
    unfolding rebuilds_def by (intro exI [of _ "[[]]"]) (simp add: whitespace_def)
  then show ?thesis using True by (simp add: SplitMessage_def)
next
  case False
  from splitLoop_returns [OF assms, of "text" "[]"] obtain ps ws where
    r: "splitLoop maxLen text [] = Some (Returns ([] @ ps))" "length ws = length ps"
       "list_all whitespace ws" "text = weave ps ws"
       "list_all (\<lambda>p. int (length p) \<le> maxLen) ps"
       "maxLen < int (length text) \<longrightarrow> ps \<noteq> []"
       "length ps \<le> length text div (max 1 (nat (maxLen - 99))) + 1"
       "ps \<noteq> [] \<longrightarrow> last ws \<noteq> [] \<longrightarrow> maxLen < int (length (last ps @ last ws))"
    by blast
  have ne: "ps \<noteq> []" using r(6) False by simp
  have "int (length (last ps)) \<le> maxLen"
    using r(5) ne by (simp add: list_all_iff)
  then have "rebuilds maxLen text ps"
    unfolding rebuilds_def using r(2,3,4,8) ne by blast
  then show ?thesis using False assms r(1,5,7) ne by (simp add: SplitMessage_def)
qed

text \<open>The current revision returns, without a panic, for every text and every \<open>maxLen\<close>.\<close>

lemma SplitMessage_total: "\<exists>parts. SplitMessage text maxLen = Some (Returns parts)"
proof (cases "int (length text) \<le> maxLen")
  case True
  then show ?thesis by (simp add: SplitMessage_def)
next
  case False
  have "0 < (if maxLen \<le> 0 then 4000 else maxLen)" by simp
  from splitLoop_returns [OF this, of "text" "[]"] show ?thesis
    using False by (auto simp: SplitMessage_def)
qed

text \<open>A non-positive \<open>maxLen\<close> that the text exceeds is replaced by 4000 before the loop.\<close>

lemma SplitMessage_default:
  "maxLen \<le> 0 \<Longrightarrow> maxLen < int (length s) \<Longrightarrow> SplitMessage s maxLen = splitLoop 4000 s []"
  by (simp add: SplitMessage_def)

lemma splitLoop_total:
  "0 < maxLen \<Longrightarrow> \<exists>ps. splitLoop maxLen current parts = Some (Returns ps)"
  using splitLoop_returns [of maxLen current parts] by blast

lemma SplitMessage_nonpositive:
  assumes "maxLen \<le> 0" and "s \<noteq> []"
  shows "SplitMessage s maxLen = SplitMessage s 4000"
proof -
  have long: "maxLen < int (length s)" using assms by (cases s) simp_all
  have "SplitMessage s 4000 = splitLoop 4000 s []"
    using assms(2) by (simp add: SplitMessage_def splitLoop_done)
  then show ?thesis using SplitMessage_default [OF assms(1) long] by simp
qed

text \<open>
  Claim C7. \<open>SplitMessage\<close> (utils.go, lines 101 to 153) returns, without a panic, for
  every text and every \<open>maxLen\<close>. A \<open>maxLen \<le> 0\<close> never reaches the loop: the empty text
  with \<open>maxLen = 0\<close> is returned before it, and otherwise the loop runs with 4000, so that a
  non-empty text is split as with \<open>maxLen = 4000\<close>. The loop itself returns for every
  positive bound, whatever the remainder and the parts collected so far.
\<close>

theorem SplitMessage_terminates:
  "(\<exists>parts. SplitMessage s maxLen = Some (Returns parts)) \<and>
   (maxLen \<le> 0 \<and> int (length s) \<le> maxLen \<longrightarrow> SplitMessage s maxLen = Some (Returns [s])) \<and>
   (maxLen \<le> 0 \<and> maxLen < int (length s) \<longrightarrow> SplitMessage s maxLen = splitLoop 4000 s []) \<and>
   (maxLen \<le> 0 \<and> s \<noteq> [] \<longrightarrow> SplitMessage s maxLen = SplitMessage s 4000) \<and>
   (0 < bound \<longrightarrow> (\<exists>ps. splitLoop bound current parts = Some (Returns ps)))"
proof (intro conjI impI)
  show "\<exists>parts. SplitMessage s maxLen = Some (Returns parts)" by (rule SplitMessage_total)
next
  assume "maxLen \<le> 0 \<and> int (length s) \<le> maxLen"
  then show "SplitMessage s maxLen = Some (Returns [s])" by (simp add: SplitMessage_def)
next
  assume "maxLen \<le> 0 \<and> maxLen < int (length s)"
  then show "SplitMessage s maxLen = splitLoop 4000 s []" by (simp add: SplitMessage_default)
next
  assume "maxLen \<le> 0 \<and> s \<noteq> []"
  then show "SplitMessage s maxLen = SplitMessage s 4000" by (simp add: SplitMessage_nonpositive)
next
  assume "0 < bound"
  then show "\<exists>ps. splitLoop bound current parts = Some (Returns ps)" by (rule splitLoop_total)
qed

text \<open>The one-byte text with \<open>maxLen = 0\<close> and with \<open>maxLen = -3\<close>: returned as the single chunk.\<close>

theorem SplitMessage_terminates_witness:
  "SplitMessage ''a'' 0 = Some (Returns [''a'']) \<and> SplitMessage ''a'' (- 3) = Some (Returns [''a''])"
proof -
  have d: "SplitMessage ''a'' 4000 = Some (Returns [''a''])" by (simp add: SplitMessage_def)
  have "SplitMessage ''a'' 0 = SplitMessage ''a'' 4000"
    by (rule SplitMessage_terminates [where s = "''a''" and maxLen = 0,
          THEN conjunct2, THEN conjunct2, THEN conjunct2, THEN conjunct1, rule_format]) simp
  moreover have "SplitMessage ''a'' (- 3) = SplitMessage ''a'' 4000"
    by (rule SplitMessage_terminates [where s = "''a''" and maxLen = "- 3",
          THEN conjunct2, THEN conjunct2, THEN conjunct2, THEN conjunct1, rule_format]) simp
  ultimately show ?thesis by (simp only: d simp_thms)
qed

text \<open>
  Claim C2, amended. For a positive \<open>maxLen\<close> \<open>SplitMessage\<close> returns; a text no longer
  than \<open>maxLen\<close> comes back as the single chunk, nothing skipped; and in every case the
  text is its chunks, each followed by a (possibly empty) run of spaces and newlines, where
  the run after the last chunk is empty unless that chunk was cut (it is at most
  \<open>maxLen\<close> long, and together with the run it is longer than \<open>maxLen\<close>) and nothing but
  the run was left after the cut.
\<close>

theorem SplitMessage_rebuilds:
  "0 < maxLen \<Longrightarrow>
   \<exists>parts. SplitMessage text maxLen = Some (Returns parts) \<and> rebuilds maxLen text parts \<and>
     (int (length text) \<le> maxLen \<longrightarrow> parts = [text])"
  using SplitMessage_returns [of maxLen "text"] by blast

lemma SplitMessage_ab: "SplitMessage ''ab '' 2 = Some (Returns [''ab''])"
  by (simp add: SplitMessage_def splitLoop.simps searchBack.simps Let_def)

lemma SplitMessage_short: "SplitMessage ''a '' 5 = Some (Returns [''a ''])"
  by (simp add: SplitMessage_def)

text \<open>
  The text \<open>ab\<close> followed by a space, with \<open>maxLen = 2\<close>: one chunk, cut, then the space.
  The text \<open>a\<close> followed by a space, with \<open>maxLen = 5\<close>: returned whole, space included.
\<close>

theorem SplitMessage_rebuilds_witness:
  "SplitMessage ''ab '' 2 = Some (Returns [''ab'']) \<and> rebuilds 2 ''ab '' [''ab''] \<and>
   SplitMessage ''a '' 5 = Some (Returns [''a '']) \<and> rebuilds 5 ''a '' [''a '']"
proof -
  have "(0::int) < 2" by simp
  from SplitMessage_rebuilds [OF this, of "''ab ''"]
  have a: "rebuilds 2 ''ab '' [''ab'']" by (simp add: SplitMessage_ab)
  have "(0::int) < 5" by simp
  from SplitMessage_rebuilds [OF this, of "''a ''"]
  have b: "rebuilds 5 ''a '' [''a '']" by (simp add: SplitMessage_short)
  from a b show ?thesis by (simp add: SplitMessage_ab SplitMessage_short)
qed

text \<open>A run after a last chunk that was not cut is refused.\<close>

lemma rebuilds_refuses_uncut_run: "\<not> rebuilds 5 ''a '' [''a'']"
  by (auto simp: rebuilds_def length_Suc_conv)

text \<open>
  Claim C2 as stated fails: the text \<open>ab\<close> followed by a space, with \<open>maxLen = 2\<close>, gives
  the single chunk \<open>ab\<close>; the skipped space follows the last chunk, so no runs between
  chunks rebuild the text.
\<close>

theorem SplitMessage_trailing_whitespace_counterexample:
  "SplitMessage ''ab '' 2 = Some (Returns [''ab'']) \<and> \<not> rebuilds_between ''ab '' [''ab'']"
  by (simp add: SplitMessage_ab rebuilds_between_def)

lemma splitLoop_rev1_zero_diverges:
  assumes "splitLoop_rev1 maxLen current parts = Some y"
  shows "\<not> (maxLen = 0 \<and> current \<noteq> [])"
  using assms
proof (rule splitLoop_rev1.raw_induct [rotated])
  fix f :: "int \<Rightarrow> string \<Rightarrow> string list \<Rightarrow> string list outcome option"
  fix maxLen current parts y
  assume IH: "\<And>maxLen current parts y. f maxLen current parts = Some y \<Longrightarrow>
                \<not> (maxLen = 0 \<and> current \<noteq> [])"
  assume step: "(if maxLen < int (length current)
      then let splitPos0 = searchBack (CHR 0x0A) current maxLen 100 maxLen;
               splitPos = if splitPos0 = maxLen
                 then searchBack (CHR '' '') current maxLen 50 maxLen else splitPos0
           in if splitPos < 0 \<or> int (length current) < splitPos
              then Some (Panics SliceOutOfRange)
              else f maxLen (drop (nat splitPos) current) (parts @ [take (nat splitPos) current])
      else Some (Returns (if 0 < length current then parts @ [current] else parts))) = Some y"
  show "\<not> (maxLen = 0 \<and> current \<noteq> [])"
  proof
    assume a: "maxLen = 0 \<and> current \<noteq> []"
    have s: "searchBack c current 0 k 0 = 0" for c k
      by (simp add: searchBack.simps [of c current 0 k 0])
    from step a have "f 0 current (parts @ [[]]) = Some y"
      by (simp add: s Let_def)
    from IH [OF this] a show False by simp
  qed
qed

text \<open>
  The earlier revision (utils.go, lines 5 to 42) does not replace a non-positive
  \<open>maxLen\<close>: called with \<open>maxLen = 0\<close> and a one-byte text, every cut is empty, the
  remainder never shrinks, and the call never returns. Its callers pass 4000.
\<close>

lemma SplitMessage_rev1_zero_diverges: "SplitMessage_rev1 ''a'' 0 = None"
proof (cases "SplitMessage_rev1 ''a'' 0")
  case None
  then show ?thesis .
next
  case (Some y)
  then have "splitLoop_rev1 0 ''a'' [] = Some y" by (simp add: SplitMessage_rev1_def)
  from splitLoop_rev1_zero_diverges [OF this] show ?thesis by simp
qed

text \<open>With a negative \<open>maxLen\<close> the earlier revision panics at \<open>current[:splitPos]\<close>.\<close>

lemma SplitMessage_rev1_negative_panics:
  "SplitMessage_rev1 ''a'' (- 1) = Some (Panics SliceOutOfRange)"
  by (simp add: SplitMessage_rev1_def splitLoop_rev1.simps searchBack.simps Let_def)






section \<open>Properties of the dispatcher\<close>

lemma sends_append: "sends (a @ b) = sends a @ sends b"
  by (induction a rule: sends.induct) simp_all

lemma logs_append: "logs (a @ b) = logs a @ logs b"
  by (induction a rule: logs.induct) simp_all

lemma sends_sendParts_tail:
  "0 < i \<Longrightarrow> sends (sendParts w tbot chatID n i parts tr) = sends tr @ map (Pair chatID) parts"
proof (induction parts arbitrary: i tr)
  case Nil
  show ?case by simp
next
  case (Cons part rest)
  show ?case
    using Cons.prems
    by (simp add: Cons.IH SendMessage_def Let_def sends_append split: option.splits)
qed

lemma sends_sendParts:
  "sends (sendParts w tbot chatID (length parts) 0 parts tr) =
     sends tr @ map (Pair chatID) (marked parts)"
proof (cases parts)
  case Nil
  then show ?thesis by (simp add: marked_def)
next
  case (Cons part rest)
  show ?thesis
    unfolding Cons
    by (simp add: marked_def sends_sendParts_tail SendMessage_def Let_def sends_append
          split: option.splits)
qed

lemma handleTextMessage_returns:
  "\<exists>tr'. handleTextMessage w (tbot, tr) chatID text =
      Some (Returns (fst (checkRateLimit (clock w) tbot chatID), tr'))"
proof -
  obtain bot1 ok where c: "checkRateLimit (clock w) tbot chatID = (bot1, ok)"
    by (cases "checkRateLimit (clock w) tbot chatID")
  show ?thesis
  proof (cases "SendPrompt w text")
    case (Inl err)
    then show ?thesis
      by (simp add: handleTextMessage_def c Let_def split: prod.splits)
  next
    case (Inr response)
    obtain parts where "SplitMessage response 4000 = Some (Returns parts)"
      using SplitMessage_total by blast
    then show ?thesis using Inr
      by (simp add: handleTextMessage_def c Let_def)
  qed
qed

lemma handleTextMessage_success:
  assumes ok: "snd (checkRateLimit (clock w) tbot chatID)"
    and len: "int (length text) \<le> maxPromptLen tbot"
    and reply: "SendPrompt w text = Inr response"
    and parts: "SplitMessage response 4000 = Some (Returns parts)"
  shows "sentBy (handleTextMessage w (tbot, tr) chatID text) =
           Some (sends tr @ (chatID, msgProcessing) # map (Pair chatID) (marked parts))"
proof -
  obtain bot1 where c: "checkRateLimit (clock w) tbot chatID = (bot1, True)"
    using ok by (cases "checkRateLimit (clock w) tbot chatID") simp
  have "maxPromptLen bot1 = maxPromptLen tbot"
    using checkRateLimit_frame(5) [of "clock w" tbot chatID] c by simp
  then show ?thesis
    using len reply parts
    by (simp add: handleTextMessage_def c Let_def sentBy_def sends_sendParts SendMessage_def
          sends_append)
qed

text \<open>
  The current revision on a backend failure: the sender gets the acknowledgment and the
  fixed text \<open>msgGenericFailure\<close>, whatever the error; the error itself is in the log.
\<close>

lemma handleTextMessage_backend_failure:
  assumes ok: "snd (checkRateLimit (clock w) tbot chatID)"
    and len: "int (length text) \<le> maxPromptLen tbot"
    and fail: "SendPrompt w text = Inl err"
  shows "\<exists>tr'. handleTextMessage w (tbot, tr) chatID text =
            Some (Returns (fst (checkRateLimit (clock w) tbot chatID), tr')) \<and>
          sends tr' = sends tr @ [(chatID, msgProcessing), (chatID, msgGenericFailure)] \<and>
          LogOllamaError chatID (Raw err) \<in> set (logs tr')"
proof -
  obtain bot1 where c: "checkRateLimit (clock w) tbot chatID = (bot1, True)"
    using ok by (cases "checkRateLimit (clock w) tbot chatID") simp
  have "maxPromptLen bot1 = maxPromptLen tbot"
    using checkRateLimit_frame(5) [of "clock w" tbot chatID] c by simp
  then show ?thesis
    using len fail
    by (auto simp: handleTextMessage_def c Let_def SendMessage_def sends_append logs_append
          split: option.splits)
qed

text \<open>
  Claim C4 on the earlier revision (ollama.go, lines 704 to 711): the reply to the sender
  is the prefix followed by the backend's error text, and nothing is logged. The current
  revision sends the fixed text and logs the error (\<open>handleTextMessage_backend_failure\<close>).
\<close>

theorem handleTextMessage_rev1_sends_backend_error:
  "handleTextMessage_rev1 SplitMessage_rev1
     \<lparr>clock = 0, SendPrompt = (\<lambda>prompt. Inl ''dial tcp 10.0.0.5:11434: connection refused''),
      sendResult = (\<lambda>chatID text. None)\<rparr> [] 7 ''hi'' =
   Some (Returns [Send 7 msgProcessing,
                  Send 7 (msgOllamaErrorPrefix_rev1 @ ''dial tcp 10.0.0.5:11434: connection refused'')])"
  by (simp add: handleTextMessage_rev1_def SendMessage_def Let_def)




text \<open>
  Claim C10. With a non-empty allow-list, a message that has no sender (and has a chat) is
  judged by its chat's identity: \<open>isUserAllowed\<close> answers whether that identity is in the
  list, and \<open>HandleMessage\<close> goes on to the command or text handling exactly then;
  otherwise it writes the log line of a refused request and does nothing else.
\<close>

theorem isUserAllowed_chat_fallback:
  assumes "AllowedUsers tbot = AllowedUsers (NewTelegramBot token env)"
    and "allowList env \<noteq> {}" and "From m = None" and "Chat m = Some c"
  shows "isUserAllowed tbot m = Inr (Chat_ID c \<in> allowList env) \<and>
         HandleMessage w (tbot, tr) (Some m) =
           (if Chat_ID c \<in> allowList env
            then (if length (Text m) > 0 \<and> Text m ! 0 = CHR ''/''
                  then handleCommand w (tbot, tr) (Chat_ID c) (Text m)
                  else if Text m \<noteq> [] then handleTextMessage w (tbot, tr) (Chat_ID c) (Text m)
                  else Some (Returns (tbot, tr)))
            else Some (Returns (tbot, tr @ [Log (LogUnauthorized (Chat_ID c))])))"
proof -
  have a: "isUserAllowed tbot m = Inr (Chat_ID c \<in> allowList env)"
    using assms(2-4) by (simp add: isUserAllowed_def assms(1) len_AllowedUsers lookup_AllowedUsers)
  show ?thesis
    using assms(4) by (simp add: a HandleMessage_def Let_def)
qed

text \<open>
  With the allow-list \<open>{5}\<close>: a channel post in chat 5 is answered, one in chat 6 is only
  logged.
\<close>

theorem isUserAllowed_chat_fallback_witness:
  "isUserAllowed (NewTelegramBot ''t'' (envUnset\<lparr>ALLOWED_USER_IDS := [Some 5]\<rparr>))
     (channelPost 5 ''hi'') = Inr True \<and>
   isUserAllowed (NewTelegramBot ''t'' (envUnset\<lparr>ALLOWED_USER_IDS := [Some 5]\<rparr>))
     (channelPost 6 ''hi'') = Inr False \<and>
   HandleMessage (backendAnswers (Inr ''ok''))
     (NewTelegramBot ''t'' (envUnset\<lparr>ALLOWED_USER_IDS := [Some 5]\<rparr>), [])
     (Some (channelPost 6 ''hi'')) =
   Some (Returns (NewTelegramBot ''t'' (envUnset\<lparr>ALLOWED_USER_IDS := [Some 5]\<rparr>),
                  [Log (LogUnauthorized 6)])) \<and>
   sentBy (HandleMessage (backendAnswers (Inr ''ok''))
     (NewTelegramBot ''t'' (envUnset\<lparr>ALLOWED_USER_IDS := [Some 5]\<rparr>), [])
     (Some (channelPost 5 ''hi''))) = Some [(5, msgProcessing), (5, ''ok'')]"
proof -
  let ?env5 = "envUnset\<lparr>ALLOWED_USER_IDS := [Some 5]\<rparr>"
  let ?bot = "NewTelegramBot ''t'' ?env5"
  let ?w = "backendAnswers (Inr ''ok'')"
  have a5: "allowList ?env5 \<noteq> {}" "allowList ?env5 = {5}"
    by (simp_all add: allowList_def envUnset_def)
  have f: "From (channelPost i t) = None" for i t by (simp add: channelPost_def)
  have c: "Chat (channelPost i t) = Some \<lparr>Chat_ID = i, Chat_Type = ''channel'',
             Chat_FirstName = [], Chat_Username = ''c''\<rparr>" for i t
    by (simp add: channelPost_def)
  have t: "Text (channelPost i t) = t" for i t by (simp add: channelPost_def)
  note T5 = isUserAllowed_chat_fallback [where tbot = ?bot and token = "''t''" and env = ?env5
      and m = "channelPost 5 ''hi''" and w = ?w and tr = "[]"
      and c = "\<lparr>Chat_ID = 5, Chat_Type = ''channel'', Chat_FirstName = [], Chat_Username = ''c''\<rparr>",
      OF refl a5(1) f c]
  note T6 = isUserAllowed_chat_fallback [where tbot = ?bot and token = "''t''" and env = ?env5
      and m = "channelPost 6 ''hi''" and w = ?w and tr = "[]"
      and c = "\<lparr>Chat_ID = 6, Chat_Type = ''channel'', Chat_FirstName = [], Chat_Username = ''c''\<rparr>",
      OF refl a5(1) f c]
  have ok: "snd (checkRateLimit (clock ?w) ?bot 5)"
    by (simp add: checkRateLimit_def NewTelegramBot_def positiveOr_def lookup_times_def Let_def
          backendAnswers_def envUnset_def)
  have len: "int (length ''hi'') \<le> maxPromptLen ?bot"
    by (simp add: NewTelegramBot_def positiveOr_def envUnset_def)
  have sp: "SplitMessage ''ok'' 4000 = Some (Returns [''ok''])"
    by (simp add: SplitMessage_def)
  have s5: "sentBy (handleTextMessage ?w (?bot, []) 5 ''hi'') =
      Some (sends [] @ (5, msgProcessing) # map (Pair 5) (marked [''ok'']))"
    by (rule handleTextMessage_success [OF ok len _ sp]) (simp add: backendAnswers_def)
  show ?thesis
    using T5 T6 s5 by (simp add: a5(2) t marked_def)
qed







section \<open>Properties of the intake loop\<close>

lemma handleCommand_returns:
  "\<exists>tbot' tr'. handleCommand w (tbot, tr) chatID command = Some (Returns (tbot', tr')) \<and>
       LastUpdate tbot' = LastUpdate tbot"
proof -
  obtain tr' where "handleTextMessage w (tbot, tr) chatID command =
      Some (Returns (fst (checkRateLimit (clock w) tbot chatID), tr'))"
    using handleTextMessage_returns by blast
  then show ?thesis
    by (simp add: handleCommand_def SendMessage_def Let_def checkRateLimit_frame)
qed

lemma HandleMessage_returns:
  "\<exists>tbot' tr'. HandleMessage w (tbot, tr) message = Some (Returns (tbot', tr')) \<and>
       LastUpdate tbot' = LastUpdate tbot"
proof (cases message)
  case None
  then show ?thesis by (simp add: HandleMessage_def)
next
  case (Some m)
  show ?thesis
  proof (cases "Chat m")
    case None
    then show ?thesis using Some by (simp add: HandleMessage_def)
  next
    case c: (Some c)
    have "\<exists>allowed. isUserAllowed tbot m = Inr allowed"
      using c by (auto simp: isUserAllowed_def split: option.splits)
    then obtain allowed where a: "isUserAllowed tbot m = Inr allowed" by blast
    obtain tr1 where t: "handleTextMessage w (tbot, tr) (Chat_ID c) (Text m) =
        Some (Returns (fst (checkRateLimit (clock w) tbot (Chat_ID c)), tr1))"
      using handleTextMessage_returns by blast
    obtain bot2 tr2 where h: "handleCommand w (tbot, tr) (Chat_ID c) (Text m) =
        Some (Returns (bot2, tr2))" "LastUpdate bot2 = LastUpdate tbot"
      using handleCommand_returns by blast
    show ?thesis
      using Some c a t h
      by (simp add: HandleMessage_def Let_def checkRateLimit_frame)
  qed
qed

lemma sint_advance:
  "sint (LastUpdate (advance tbot update)) = max (sint (LastUpdate tbot)) (sint (UpdateID update))"
  by (simp add: advance_def)

lemma processUpdates_watermark:
  "\<exists>tbot' tr'. processUpdates ws i (tbot, tr) updates = Some (Returns (tbot', tr')) \<and>
     sint (LastUpdate tbot') =
       fold max (map (\<lambda>u. sint (UpdateID u)) updates) (sint (LastUpdate tbot))"
proof (induction updates arbitrary: i tbot tr)
  case Nil
  show ?case by simp
next
  case (Cons update rest)
  let ?b1 = "advance tbot update"
  obtain bot2 tr2 where h:
    "(case Msg update of None \<Rightarrow> Some (Returns (?b1, tr))
      | Some m \<Rightarrow> HandleMessage (ws i) (?b1, tr) (Some m)) = Some (Returns (bot2, tr2))"
    "LastUpdate bot2 = LastUpdate ?b1"
  proof (cases "Msg update")
    case None
    then show ?thesis using that by simp
  next
    case (Some m)
    then show ?thesis using that HandleMessage_returns [of "ws i" ?b1 tr "Some m"] by auto
  qed
  from Cons.IH [of "i + 1" bot2 tr2] obtain tbot' tr' where r:
    "processUpdates ws (i + 1) (bot2, tr2) rest = Some (Returns (tbot', tr'))"
    "sint (LastUpdate tbot') = fold max (map (\<lambda>u. sint (UpdateID u)) rest) (sint (LastUpdate bot2))"
    by blast
  have "processUpdates ws i (tbot, tr) (update # rest) = Some (Returns (tbot', tr'))"
    using h(1) r(1) by (simp add: Let_def)
  moreover have "sint (LastUpdate tbot') =
      fold max (map (\<lambda>u. sint (UpdateID u)) (update # rest)) (sint (LastUpdate tbot))"
    using r(2) h(2) by (simp add: sint_advance max.commute)
  ultimately show ?case by blast
qed

lemma fold_max_Max: "fold max xs (a::int) = Max (set (a # xs))"
  by (rule Max.set_eq_fold [symmetric])

lemma sint_succ:
  "sint (x :: int64) < 2 ^ 63 - 1 \<Longrightarrow> sint (x + 1) = sint x + 1"
proof -
  assume a: "sint x < 2 ^ 63 - 1"
  have lo: "- (2 ^ 63) \<le> sint x" using sint_ge [of x] by simp
  have "sint (x + 1) = signed_take_bit 63 (sint x + 1)"
    by (simp add: sint_word_ariths)
  also have "\<dots> = sint x + 1"
    using a lo by (intro signed_take_bit_int_eq_self) simp_all
  finally show ?thesis .
qed

lemma watermarkAfter_Max:
  "watermarkAfter ws i (tbot, tr) updates =
     Some (Max (set (sint (LastUpdate tbot) # map (\<lambda>u. sint (UpdateID u)) updates)))"
proof -
  obtain tbot' tr' where r:
    "processUpdates ws i (tbot, tr) updates = Some (Returns (tbot', tr'))"
    "sint (LastUpdate tbot') =
       fold max (map (\<lambda>u. sint (UpdateID u)) updates) (sint (LastUpdate tbot))"
    using processUpdates_watermark by blast
  show ?thesis
    by (simp only: watermarkAfter_def r option.case outcome.case fst_conv fold_max_Max)
qed

lemma Max_prefix_mono:
  assumes "n \<le> k"
  shows "Max (set ((a::int) # take n xs)) \<le> Max (set (a # take k xs))"
proof (rule Max_mono)
  show "set (a # take n xs) \<subseteq> set (a # take k xs)"
    using set_take_subset_set_take [OF assms, of xs] by auto
qed simp_all

text \<open>
  Claim C5. Processing a batch always returns; afterwards the watermark is the maximum of
  its previous value and the batch's identifiers (as signed numbers), and the next
  \<open>GetUpdates\<close> requests the watermark plus one (an \<open>int64\<close> addition, which is the
  successor unless the watermark is the largest \<open>int64\<close>). Along the batch the watermark
  never decreases: after \<open>n\<close> updates it is at least the initial one and at most what it is
  after \<open>k \<ge> n\<close> updates.
\<close>

theorem watermark_is_max:
  "(\<exists>st1. processUpdates ws i (tbot, tr) updates = Some (Returns st1) \<and>
      sint (LastUpdate (fst st1)) =
        Max (set (sint (LastUpdate tbot) # map (\<lambda>u. sint (UpdateID u)) updates)) \<and>
      fst (GetUpdates telegram st1) = snd st1 @ [Fetch (LastUpdate (fst st1) + 1)] \<and>
      (sint (LastUpdate (fst st1)) < 2 ^ 63 - 1 \<longrightarrow>
         sint (LastUpdate (fst st1) + 1) = sint (LastUpdate (fst st1)) + 1)) \<and>
   (\<forall>n k. n \<le> k \<longrightarrow>
      (\<exists>a b. watermarkAfter ws i (tbot, tr) (take n updates) = Some a \<and>
             watermarkAfter ws i (tbot, tr) (take k updates) = Some b \<and>
             sint (LastUpdate tbot) \<le> a \<and> a \<le> b))"
proof (intro conjI allI impI)
  obtain tbot' tr' where r:
    "processUpdates ws i (tbot, tr) updates = Some (Returns (tbot', tr'))"
    "sint (LastUpdate tbot') =
       fold max (map (\<lambda>u. sint (UpdateID u)) updates) (sint (LastUpdate tbot))"
    using processUpdates_watermark by blast
  have "sint (LastUpdate (fst (tbot', tr'))) =
        Max (set (sint (LastUpdate tbot) # map (\<lambda>u. sint (UpdateID u)) updates))"
    by (simp only: fst_conv r(2) fold_max_Max)
  moreover have "fst (GetUpdates telegram (tbot', tr')) =
      snd (tbot', tr') @ [Fetch (LastUpdate (fst (tbot', tr')) + 1)]"
    by (simp add: GetUpdates_def Let_def)
  moreover have "sint (LastUpdate (fst (tbot', tr'))) < 2 ^ 63 - 1 \<longrightarrow>
      sint (LastUpdate (fst (tbot', tr')) + 1) = sint (LastUpdate (fst (tbot', tr'))) + 1"
    using sint_succ by blast
  ultimately show "\<exists>st1. processUpdates ws i (tbot, tr) updates = Some (Returns st1) \<and>
      sint (LastUpdate (fst st1)) =
        Max (set (sint (LastUpdate tbot) # map (\<lambda>u. sint (UpdateID u)) updates)) \<and>
      fst (GetUpdates telegram st1) = snd st1 @ [Fetch (LastUpdate (fst st1) + 1)] \<and>
      (sint (LastUpdate (fst st1)) < 2 ^ 63 - 1 \<longrightarrow>
         sint (LastUpdate (fst st1) + 1) = sint (LastUpdate (fst st1)) + 1)"
    using r(1) by blast
next
  fix n k :: nat
  assume nk: "n \<le> k"
  let ?ids = "map (\<lambda>u. sint (UpdateID u)) updates"
  let ?a = "Max (set (sint (LastUpdate tbot) # take n ?ids))"
  let ?b = "Max (set (sint (LastUpdate tbot) # take k ?ids))"
  have "watermarkAfter ws i (tbot, tr) (take n updates) = Some ?a"
    by (simp only: watermarkAfter_Max take_map)
  moreover have "watermarkAfter ws i (tbot, tr) (take k updates) = Some ?b"
    by (simp only: watermarkAfter_Max take_map)
  moreover have "sint (LastUpdate tbot) \<le> ?a" by (rule Max_ge) simp_all
  moreover have "?a \<le> ?b" by (rule Max_prefix_mono [OF nk])
  ultimately show "\<exists>a b. watermarkAfter ws i (tbot, tr) (take n updates) = Some a \<and>
             watermarkAfter ws i (tbot, tr) (take k updates) = Some b \<and>
             sint (LastUpdate tbot) \<le> a \<and> a \<le> b"
    by blast
qed

lemma processUpdates_bare:
  "processUpdates ws i (tbot, tr) (map bareUpdate ids) = Some (Returns (fold (\<lambda>i b. advance b (bareUpdate i)) ids tbot, tr))"
  by (induction ids arbitrary: i tbot) (simp_all add: bareUpdate_def Let_def)

text \<open>
  The batch with identifiers 3, 1, 4 from watermark 0: the watermark is 3, 3, then 4, and
  the next offset is 5.
\<close>

theorem watermark_is_max_witness:
  "processUpdates (\<lambda>i. backendAnswers (Inr ''ok'')) 0 (NewTelegramBot ''t'' envUnset, [])
     [bareUpdate 3, bareUpdate 1, bareUpdate 4] =
     Some (Returns ((NewTelegramBot ''t'' envUnset)\<lparr>LastUpdate := 4\<rparr>, [])) \<and>
   sint (LastUpdate ((NewTelegramBot ''t'' envUnset)\<lparr>LastUpdate := 4\<rparr>)) =
     Max (set (sint (LastUpdate (NewTelegramBot ''t'' envUnset)) #
               map (\<lambda>u. sint (UpdateID u)) [bareUpdate 3, bareUpdate 1, bareUpdate 4])) \<and>
   fst (GetUpdates (\<lambda>offset. Inr []) ((NewTelegramBot ''t'' envUnset)\<lparr>LastUpdate := 4\<rparr>, [])) =
     [Fetch 5] \<and>
   watermarkAfter (\<lambda>i. backendAnswers (Inr ''ok'')) 0 (NewTelegramBot ''t'' envUnset, [])
     (take 1 [bareUpdate 3, bareUpdate 1, bareUpdate 4]) = Some 3 \<and>
   watermarkAfter (\<lambda>i. backendAnswers (Inr ''ok'')) 0 (NewTelegramBot ''t'' envUnset, [])
     (take 2 [bareUpdate 3, bareUpdate 1, bareUpdate 4]) = Some 3"
proof -
  let ?ws = "\<lambda>i::nat. backendAnswers (Inr ''ok'')"
  let ?bot = "NewTelegramBot ''t'' envUnset"
  let ?us = "[bareUpdate 3, bareUpdate 1, bareUpdate 4]"
  note T = watermark_is_max [of ?ws 0 ?bot "[]" ?us "\<lambda>offset. Inr []"]
  have l0: "LastUpdate ?bot = 0" by (simp add: NewTelegramBot_def)
  have p: "processUpdates ?ws 0 (?bot, []) ?us = Some (Returns (?bot\<lparr>LastUpdate := 4\<rparr>, []))"
    using processUpdates_bare [of ?ws 0 ?bot "[]" "[3, 1, 4]"]
    by (simp add: advance_def bareUpdate_def l0)
  from T [THEN conjunct1] obtain st1 where
    r: "processUpdates ?ws 0 (?bot, []) ?us = Some (Returns st1)"
       "sint (LastUpdate (fst st1)) =
          Max (set (sint (LastUpdate ?bot) # map (\<lambda>u. sint (UpdateID u)) ?us))"
       "fst (GetUpdates (\<lambda>offset. Inr []) st1) = snd st1 @ [Fetch (LastUpdate (fst st1) + 1)]"
    by blast
  have st1: "st1 = (?bot\<lparr>LastUpdate := 4\<rparr>, [])"
    using r(1) unfolding p by simp
  have m: "sint (LastUpdate (?bot\<lparr>LastUpdate := 4\<rparr>)) =
          Max (set (sint (LastUpdate ?bot) # map (\<lambda>u. sint (UpdateID u)) ?us))"
    using r(2) unfolding st1 by (simp only: fst_conv)
  have g: "fst (GetUpdates (\<lambda>offset. Inr []) (?bot\<lparr>LastUpdate := 4\<rparr>, [])) = [Fetch 5]"
    using r(3) unfolding st1 by simp
  from T [THEN conjunct2, rule_format, of 1 2] obtain a b where
    ab: "watermarkAfter ?ws 0 (?bot, []) (take 1 ?us) = Some a"
        "watermarkAfter ?ws 0 (?bot, []) (take 2 ?us) = Some b" "a \<le> b"
    by auto
  have a: "watermarkAfter ?ws 0 (?bot, []) (take 1 ?us) = Some 3"
    by (simp add: watermarkAfter_Max l0 bareUpdate_def)
  have b: "watermarkAfter ?ws 0 (?bot, []) (take 2 ?us) = Some 3"
    by (simp add: watermarkAfter_Max l0 bareUpdate_def)
  from p m g a b show ?thesis by (intro conjI)
qed

text \<open>
  The current revision (main.go, lines 96 to 102) on a failed fetch: the error is logged,
  five seconds are slept, the bot (and so the watermark) is unchanged and the loop
  continues.
\<close>

lemma loopIteration_fetch_error:
  assumes "telegram (LastUpdate tbot + 1) = Inl err"
  shows "loopIteration False telegram ws (tbot, tr) =
     Some (Returns ((tbot, tr @ [Fetch (LastUpdate tbot + 1), Log (LogGetUpdatesFailed (Raw err)),
                                  Sleep 5000000000]), Continue))"
  using assms by (simp add: loopIteration_def GetUpdates_def Let_def)

text \<open>
  Claim C6 on the earlier revision of the loop (main.go, lines 31 to 37): a failed fetch is
  logged and the loop continues, the watermark unchanged, but nothing is slept: the trace
  ends with the log line. The current revision sleeps five seconds
  (\<open>loopIteration_fetch_error\<close>).
\<close>

theorem loopIteration_rev1_no_backoff:
  "loopIteration_rev1 (processUpdates (\<lambda>i. backendAnswers (Inr ''ok'')) 0)
     (\<lambda>offset. Inl ''connection reset'') (NewTelegramBot ''t'' envUnset, []) =
   Some (Returns ((NewTelegramBot ''t'' envUnset,
                   [Fetch 1, Log (LogGetUpdatesFailed (Raw ''connection reset''))]), Continue))"
  by (simp add: loopIteration_rev1_def GetUpdates_def Let_def NewTelegramBot_def)

end
